theory Spec2Isabelle
  imports Main "HOL-Library.Sublist"
begin

section \<open>The pull command of skeema (src/pull.go)\<close>

text \<open>
  \<^verbatim>\<open>pull(cfg, seen)\<close> walks a directory tree.  At a leaf directory it compares the
  tables of one live schema with the table files of the directory and writes or
  deletes one file per difference; at any other directory it first creates
  directories for schemas that have none (when the directory stands for a database
  instance) and then calls itself on the sub-directories it has not seen.

  The function calls into code that is not part of \<^verbatim>\<open>pull.go\<close>: the
  directory and configuration types, the SQL file type, the temporary schema and
  the tengo library.  What these calls answer is a parameter of the model (the
  record \<open>env\<close>); what they change is written out below from the description
  of the system, each such definition marked as modelled from the spec.
\<close>

subsection \<open>Data\<close>

type_synonym path = string

text \<open>A Go \<^verbatim>\<open>error\<close> value, by its message.\<close>
type_synonym err = string

type_synonym tengo_Instance = string

record SkeemaDir =
  Path :: path

text \<open>\<^verbatim>\<open>tengo.Table\<close>; pull reads only its name.\<close>
record Table =
  Name :: string

text \<open>\<^verbatim>\<open>tengo.Schema\<close>; pull reads only its name (the field \<^verbatim>\<open>Name\<close> of the source).\<close>
record Schema =
  SchemaName :: string

text \<open>A target embeds the instance it connects to and lists schema names.\<close>
record Target =
  Instance :: tengo_Instance
  SchemaNames :: "string list"

record Config =
  Dir :: SkeemaDir

text \<open>The fields \<^verbatim>\<open>Dir\<close>, \<^verbatim>\<open>FileName\<close> and \<^verbatim>\<open>Contents\<close> of \<^verbatim>\<open>SQLFile\<close>.\<close>
record SQLFile =
  SQLFile_Dir :: SkeemaDir
  FileName :: string
  Contents :: string

record SkeemaFile =
  Values :: "string \<rightharpoonup> string"

text \<open>
  The type switch of the loop distinguishes four tengo types; any other dynamic
  type reaches the \<^verbatim>\<open>default\<close> branch and is kept here by its type name.
\<close>
datatype TableDiff =
    CreateTable Table
  | DropTable Table
  | AlterTable Table
  | RenameTable Table
  | OtherDiff string

text \<open>
  How a call of pull ends: it returns an \<^verbatim>\<open>int\<close>, or it panics.  Nothing in
  \<^verbatim>\<open>pull.go\<close> recovers from a panic, so a panic ends every enclosing call too.
\<close>
datatype outcome = Exit int | Panic err

text \<open>The exit status of the process: the Go runtime ends a panicking program with status 2.\<close>
fun exit_code :: "outcome \<Rightarrow> int" where
  "exit_code (Exit n) = n"
| "exit_code (Panic e) = 2"

subsection \<open>The world pull acts on\<close>

record filesys =
  files :: "path \<rightharpoonup> string"
  dirs :: "path set"

text \<open>One constructor per \<^verbatim>\<open>fmt.Printf\<close> of the source, with its arguments.\<close>
datatype message =
    Updating path
  | UnableToDeleteDirectory SkeemaDir err
  | DeletedDirectory SkeemaDir
  | UnableToPopulateTemporarySchema err
  | UnableToWrite path err
  | WroteNewTable path int
  | UnableToDelete path err
  | DeletedTable path
  | WroteUpdated path int
  | UnableToCleanUp err
  | UnableToListSubdirs SkeemaDir err

text \<open>
  The trace lists, in order, what pull printed and which calls it made that reach
  the file system or the database; \<open>Visit\<close> marks that pull was entered on a directory.
\<close>
datatype event =
    Printed message
  | Visit path
  | Call_Dir_Delete path
  | Call_PopulateTemporarySchema path
  | Call_NewSchemaDiff
  | Call_ShowCreateTable string
  | Call_SQLFile_Write path
  | Call_SQLFile_Delete path
  | Call_DropTemporarySchema path
  | Call_PopulateSchemaDir string path

record world =
  fs :: filesys
  temp_schema :: bool
  trace :: "event list"

definition emit :: "event \<Rightarrow> world \<Rightarrow> world" where
  "emit e w = w\<lparr>trace := trace w @ [e]\<rparr>"

subsection \<open>The collaborators\<close>

text \<open>
  Every answer of the surrounding code is a field of \<open>env\<close>, a function of the
  current world and of the arguments of the call.  The fields ending in
  \<open>_fault\<close> say whether an operation that changes the world fails (and with
  which error).  \<open>PopulateSchemaDir\<close> is the function of the init command
  that pull reuses: it answers with its return code and the file system it leaves.
\<close>
record env =
  IsLeaf :: "world \<Rightarrow> SkeemaDir \<Rightarrow> bool"
  IsInstanceWithLeafSubdirs :: "world \<Rightarrow> SkeemaDir \<Rightarrow> bool"
  Subdirs :: "world \<Rightarrow> SkeemaDir \<Rightarrow> err + SkeemaDir list"
  Dir_SkeemaFile :: "world \<Rightarrow> SkeemaDir \<Rightarrow> Config \<Rightarrow> err + SkeemaFile"
  Targets :: "world \<Rightarrow> Config \<Rightarrow> Target list"
  Instance_Schema :: "world \<Rightarrow> tengo_Instance \<Rightarrow> string \<Rightarrow> Schema option"
  Schemas :: "world \<Rightarrow> tengo_Instance \<Rightarrow> Schema list"
  TemporarySchema :: "world \<Rightarrow> tengo_Instance \<Rightarrow> Schema option"
  ShowCreateTable :: "world \<Rightarrow> tengo_Instance \<Rightarrow> Schema \<Rightarrow> Table \<Rightarrow> err + string"
  NewSchemaDiff :: "Schema option \<Rightarrow> Schema option \<Rightarrow> TableDiff list"
  PopulateSchemaDir :: "world \<Rightarrow> Schema \<Rightarrow> tengo_Instance \<Rightarrow> SkeemaDir \<Rightarrow> bool \<Rightarrow> int \<times> filesys"
  Dir_Delete_fault :: "world \<Rightarrow> SkeemaDir \<Rightarrow> err option"
  PopulateTemporarySchema_fault :: "world \<Rightarrow> Config \<Rightarrow> err option"
  DropTemporarySchema_fault :: "world \<Rightarrow> Config \<Rightarrow> err option"
  SQLFile_Write_fault :: "world \<Rightarrow> SQLFile \<Rightarrow> err option"
  SQLFile_Delete_fault :: "world \<Rightarrow> SQLFile \<Rightarrow> err option"

text \<open>\<open>within d p\<close>: the path \<open>p\<close> is the directory \<open>d\<close> or lies below it.\<close>
definition within :: "path \<Rightarrow> path \<Rightarrow> bool" where
  "within d p \<longleftrightarrow> p = d \<or> prefix (d @ ''/'') p"

text \<open>
  Modelled from the spec: \<^verbatim>\<open>SkeemaDir.Delete\<close> is not in \<^verbatim>\<open>pull.go\<close>.  The spec
  says that the directory is deleted recursively; a failure leaves the world as it was.
\<close>
definition Dir_Delete :: "env \<Rightarrow> SkeemaDir \<Rightarrow> world \<Rightarrow> err option \<times> world" where
  "Dir_Delete E d w =
     (let w' = emit (Call_Dir_Delete (Path d)) w in
      case Dir_Delete_fault E w d of
        Some e \<Rightarrow> (Some e, w')
      | None \<Rightarrow>
          (None, w'\<lparr>fs := \<lparr>files = (\<lambda>p. if within (Path d) p then None else files (fs w) p),
                           dirs = {p \<in> dirs (fs w). \<not> within (Path d) p}\<rparr>\<rparr>))"

text \<open>
  Modelled from the spec: \<^verbatim>\<open>SQLFile.Path\<close> is not in \<^verbatim>\<open>pull.go\<close>.  The file of a
  table lies in the directory, under the file name.
\<close>
definition SQLFile_Path :: "SQLFile \<Rightarrow> path" where
  "SQLFile_Path sf = Path (SQLFile_Dir sf) @ ''/'' @ FileName sf"

text \<open>
  Modelled from the spec: \<^verbatim>\<open>SQLFile.Write\<close> is not in \<^verbatim>\<open>pull.go\<close>.  The spec's
  contract is \<^verbatim>\<open>write(directory, tableName, content) -> (bytesWritten, error)\<close>, an
  overwrite-or-create of the one file; the bytes written are those of the content.
\<close>
definition SQLFile_Write :: "env \<Rightarrow> SQLFile \<Rightarrow> world \<Rightarrow> (err + int) \<times> world" where
  "SQLFile_Write E sf w =
     (let w' = emit (Call_SQLFile_Write (SQLFile_Path sf)) w in
      case SQLFile_Write_fault E w sf of
        Some e \<Rightarrow> (Inl e, w')
      | None \<Rightarrow>
          (Inr (int (length (Contents sf))),
           w'\<lparr>fs := (fs w)\<lparr>files := (files (fs w))(SQLFile_Path sf \<mapsto> Contents sf)\<rparr>\<rparr>))"

text \<open>
  Modelled from the spec: \<^verbatim>\<open>SQLFile.Delete\<close> is not in \<^verbatim>\<open>pull.go\<close>.  The spec's
  contract is \<^verbatim>\<open>delete(directory, tableName) -> error\<close>, where a missing file is an
  error handed to the caller.
\<close>
definition SQLFile_Delete :: "env \<Rightarrow> SQLFile \<Rightarrow> world \<Rightarrow> err option \<times> world" where
  "SQLFile_Delete E sf w =
     (let w' = emit (Call_SQLFile_Delete (SQLFile_Path sf)) w in
      if files (fs w) (SQLFile_Path sf) = None then (Some ''no such file or directory'', w')
      else case SQLFile_Delete_fault E w sf of
        Some e \<Rightarrow> (Some e, w')
      | None \<Rightarrow> (None, w'\<lparr>fs := (fs w)\<lparr>files := (files (fs w))(SQLFile_Path sf := None)\<rparr>\<rparr>))"

text \<open>
  Modelled from the spec: \<^verbatim>\<open>Config.PopulateTemporarySchema\<close> is not in
  \<^verbatim>\<open>pull.go\<close>.  Acquisition stages the table files of the directory in a scratch
  schema on the instance; \<open>temp_schema\<close> says whether that schema exists.
\<close>
definition PopulateTemporarySchema :: "env \<Rightarrow> Config \<Rightarrow> world \<Rightarrow> err option \<times> world" where
  "PopulateTemporarySchema E cfg w =
     (let w' = emit (Call_PopulateTemporarySchema (Path (Dir cfg))) w in
      case PopulateTemporarySchema_fault E w cfg of
        Some e \<Rightarrow> (Some e, w')
      | None \<Rightarrow> (None, w'\<lparr>temp_schema := True\<rparr>))"

text \<open>
  Modelled from the spec: \<^verbatim>\<open>Config.DropTemporarySchema\<close> is not in \<^verbatim>\<open>pull.go\<close>.
  Release drops the scratch schema; a failed release leaves it.
\<close>
definition DropTemporarySchema :: "env \<Rightarrow> Config \<Rightarrow> world \<Rightarrow> err option \<times> world" where
  "DropTemporarySchema E cfg w =
     (let w' = emit (Call_DropTemporarySchema (Path (Dir cfg))) w in
      case DropTemporarySchema_fault E w cfg of
        Some e \<Rightarrow> (Some e, w')
      | None \<Rightarrow> (None, w'\<lparr>temp_schema := False\<rparr>))"

text \<open>
  Modelled from the spec: \<^verbatim>\<open>Config.ChangeDir\<close> is not in \<^verbatim>\<open>pull.go\<close>.  The spec's
  walker is called on a directory; the configuration of the recursive call is the
  one of that directory.
\<close>
definition ChangeDir :: "Config \<Rightarrow> SkeemaDir \<Rightarrow> Config" where
  "ChangeDir cfg d = cfg\<lparr>Dir := d\<rparr>"

text \<open>Modelled from the spec: \<^verbatim>\<open>SkeemaFile.HasField\<close> is not in \<^verbatim>\<open>pull.go\<close>.\<close>
definition HasField :: "SkeemaFile \<Rightarrow> string \<Rightarrow> bool" where
  "HasField skf k \<longleftrightarrow> Values skf k \<noteq> None"

text \<open>Reading a Go \<^verbatim>\<open>map[string]string\<close>: a missing key reads as the empty string.\<close>
definition map_string :: "(string \<rightharpoonup> string) \<Rightarrow> string \<Rightarrow> string" where
  "map_string m k = (case m k of None \<Rightarrow> [] | Some v \<Rightarrow> v)"

text \<open>Reading a Go \<^verbatim>\<open>map[string]bool\<close>: a missing key reads as false.\<close>
definition map_bool :: "(string \<rightharpoonup> bool) \<Rightarrow> string \<Rightarrow> bool" where
  "map_bool m k = (case m k of None \<Rightarrow> False | Some b \<Rightarrow> b)"

text \<open>The panic of the Go runtime on \<^verbatim>\<open>xs[0]\<close> for an empty slice.\<close>
definition index_out_of_range :: err where
  "index_out_of_range = ''runtime error: index out of range''"

text \<open>\<^verbatim>\<open>xs[0]\<close>: the first element, or that panic.\<close>
definition index0 :: "'a list \<Rightarrow> err + 'a" where
  "index0 xs = (case xs of [] \<Rightarrow> Inl index_out_of_range | x # _ \<Rightarrow> Inr x)"

subsection \<open>The leaf branch (lines 29 to 111)\<close>

text \<open>
  The body of the loop over \<^verbatim>\<open>diff.TableDiffs\<close>.  The answer \<open>None\<close> lets the
  loop go on; \<open>Some r\<close> leaves pull with \<open>r\<close> (a \<^verbatim>\<open>return 1\<close> or a panic).
\<close>
fun apply_diff :: "env \<Rightarrow> Config \<Rightarrow> Target \<Rightarrow> Schema \<Rightarrow> TableDiff \<Rightarrow> world \<Rightarrow> outcome option \<times> world" where
  "apply_diff E cfg t to (CreateTable table) w =
     (case ShowCreateTable E w (Instance t) to table of
        Inl e \<Rightarrow> (Some (Panic e), emit (Call_ShowCreateTable (Name table)) w)
      | Inr createStmt \<Rightarrow>
          (let sf = \<lparr>SQLFile_Dir = Dir cfg, FileName = Name table @ ''.sql'', Contents = createStmt\<rparr> in
           case SQLFile_Write E sf (emit (Call_ShowCreateTable (Name table)) w) of
             (Inl e, w') \<Rightarrow> (Some (Exit 1), emit (Printed (UnableToWrite (SQLFile_Path sf) e)) w')
           | (Inr n, w') \<Rightarrow> (None, emit (Printed (WroteNewTable (SQLFile_Path sf) n)) w')))"
| "apply_diff E cfg t to (DropTable table) w =
     (let sf = \<lparr>SQLFile_Dir = Dir cfg, FileName = Name table @ ''.sql'', Contents = []\<rparr> in
      case SQLFile_Delete E sf w of
        (Some e, w') \<Rightarrow> (Some (Exit 1), emit (Printed (UnableToDelete (SQLFile_Path sf) e)) w')
      | (None, w') \<Rightarrow> (None, emit (Printed (DeletedTable (SQLFile_Path sf))) w'))"
| "apply_diff E cfg t to (AlterTable table) w =
     (case ShowCreateTable E w (Instance t) to table of
        Inl e \<Rightarrow> (Some (Panic e), emit (Call_ShowCreateTable (Name table)) w)
      | Inr createStmt \<Rightarrow>
          (let sf = \<lparr>SQLFile_Dir = Dir cfg, FileName = Name table @ ''.sql'', Contents = createStmt\<rparr> in
           case SQLFile_Write E sf (emit (Call_ShowCreateTable (Name table)) w) of
             (Inl e, w') \<Rightarrow> (Some (Exit 1), emit (Printed (UnableToWrite (SQLFile_Path sf) e)) w')
           | (Inr n, w') \<Rightarrow> (None, emit (Printed (WroteUpdated (SQLFile_Path sf) n)) w')))"
| "apply_diff E cfg t to (RenameTable table) w =
     (Some (Panic ''Table renames not yet supported!''), w)"
| "apply_diff E cfg t to (OtherDiff ty) w =
     (Some (Panic (''Unsupported diff type '' @ ty @ [CHR 0x0A])), w)"

text \<open>The loop over \<^verbatim>\<open>diff.TableDiffs\<close>, in the order of the slice.\<close>
fun apply_diffs :: "env \<Rightarrow> Config \<Rightarrow> Target \<Rightarrow> Schema \<Rightarrow> TableDiff list \<Rightarrow> world \<Rightarrow> outcome option \<times> world" where
  "apply_diffs E cfg t to [] w = (None, w)"
| "apply_diffs E cfg t to (td # tds) w =
     (case apply_diff E cfg t to td w of
        (Some r, w') \<Rightarrow> (Some r, w')
      | (None, w') \<Rightarrow> apply_diffs E cfg t to tds w')"

text \<open>
  Lines 30 to 49: up to the diff.  \<open>Inl r\<close> leaves pull with \<open>r\<close>; \<open>Inr\<close> hands the
  target, the live schema and the diff to the loop.
\<close>
definition leaf_begin :: "env \<Rightarrow> Config \<Rightarrow> world \<Rightarrow> (outcome + Target \<times> Schema \<times> TableDiff list) \<times> world" where
  "leaf_begin E cfg w0 =
     (let w = emit (Printed (Updating (Path (Dir cfg)))) w0 in
      case index0 (Targets E w cfg) of
        Inl e \<Rightarrow> (Inl (Panic e), w)
      | Inr t \<Rightarrow>
          (case index0 (SchemaNames t) of
             Inl e \<Rightarrow> (Inl (Panic e), w)
           | Inr name \<Rightarrow>
               (case Instance_Schema E w (Instance t) name of
                  None \<Rightarrow>
                    (case Dir_Delete E (Dir cfg) w of
                       (Some e, w') \<Rightarrow>
                         (Inl (Exit 1), emit (Printed (UnableToDeleteDirectory (Dir cfg) e)) w')
                     | (None, w') \<Rightarrow>
                         (Inl (Exit 0), emit (Printed (DeletedDirectory (Dir cfg))) w'))
                | Some to \<Rightarrow>
                    (case PopulateTemporarySchema E cfg w of
                       (Some e, w') \<Rightarrow>
                         (Inl (Exit 1), emit (Printed (UnableToPopulateTemporarySchema e)) w')
                     | (None, w') \<Rightarrow>
                         (Inr (t, to, NewSchemaDiff E (TemporarySchema E w' (Instance t)) (Some to)),
                          emit Call_NewSchemaDiff w')))))"

text \<open>Lines 108 to 111 and the \<^verbatim>\<open>return 0\<close> of line 158.\<close>
definition leaf_end :: "env \<Rightarrow> Config \<Rightarrow> world \<Rightarrow> outcome \<times> world" where
  "leaf_end E cfg w =
     (case DropTemporarySchema E cfg w of
        (Some e, w') \<Rightarrow> (Exit 1, emit (Printed (UnableToCleanUp e)) w')
      | (None, w') \<Rightarrow> (Exit 0, w'))"

text \<open>The leaf branch: the three parts in sequence.\<close>
definition pull_leaf :: "env \<Rightarrow> Config \<Rightarrow> world \<Rightarrow> outcome \<times> world" where
  "pull_leaf E cfg w0 =
     (case leaf_begin E cfg w0 of
        (Inl r, w) \<Rightarrow> (r, w)
      | (Inr (t, to, diff), w) \<Rightarrow>
          (case apply_diffs E cfg t to diff w of
             (Some r, w') \<Rightarrow> (r, w')
           | (None, w') \<Rightarrow> leaf_end E cfg w'))"

subsection \<open>The branch of the other directories (lines 113 to 156)\<close>

text \<open>Lines 126 to 132: the schema names the sub-directories declare.\<close>
fun seen_schemas :: "env \<Rightarrow> Config \<Rightarrow> world \<Rightarrow> SkeemaDir list \<Rightarrow> (string \<rightharpoonup> bool) \<Rightarrow> (string \<rightharpoonup> bool)" where
  "seen_schemas E cfg w [] seenSchema = seenSchema"
| "seen_schemas E cfg w (subdir # rest) seenSchema =
     (case Dir_SkeemaFile E w subdir cfg of
        Inr skf \<Rightarrow>
          (if HasField skf ''schema''
           then seen_schemas E cfg w rest (seenSchema(map_string (Values skf) ''schema'' \<mapsto> True))
           else seen_schemas E cfg w rest seenSchema)
      | Inl e \<Rightarrow> seen_schemas E cfg w rest seenSchema)"

text \<open>
  The call of \<^verbatim>\<open>PopulateSchemaDir\<close> on line 137: it returns a code and may change
  the file system.
\<close>
definition call_PopulateSchemaDir :: "env \<Rightarrow> Schema \<Rightarrow> tengo_Instance \<Rightarrow> SkeemaDir \<Rightarrow> world \<Rightarrow> int \<times> world" where
  "call_PopulateSchemaDir E schema inst d w =
     (case PopulateSchemaDir E w schema inst d True of
        (ret, fs') \<Rightarrow> (ret, (emit (Call_PopulateSchemaDir (SchemaName schema) (Path d)) w)\<lparr>fs := fs'\<rparr>))"

text \<open>Lines 134 to 142: the loop over the schemas of the instance.\<close>
fun populate_new_schemas :: "env \<Rightarrow> Config \<Rightarrow> Target \<Rightarrow> (string \<rightharpoonup> bool) \<Rightarrow> Schema list \<Rightarrow> world \<Rightarrow> int \<times> world" where
  "populate_new_schemas E cfg t seenSchema [] w = (0, w)"
| "populate_new_schemas E cfg t seenSchema (schema # rest) w =
     (if \<not> map_bool seenSchema (SchemaName schema) then
        (case call_PopulateSchemaDir E schema (Instance t) (Dir cfg) w of
           (ret, w') \<Rightarrow>
             if ret \<noteq> 0 then (ret, w')
             else populate_new_schemas E cfg t seenSchema rest w')
      else populate_new_schemas E cfg t seenSchema rest w)"

text \<open>
  Lines 125 to 143.  The answer \<open>None\<close> lets pull go on to the recursion;
  \<open>Some r\<close> leaves pull with \<open>r\<close>.
\<close>
definition discover :: "env \<Rightarrow> Config \<Rightarrow> SkeemaDir list \<Rightarrow> world \<Rightarrow> outcome option \<times> world" where
  "discover E cfg subdirs w =
     (if IsInstanceWithLeafSubdirs E w (Dir cfg) then
        (let seenSchema = seen_schemas E cfg w subdirs Map.empty in
         case index0 (Targets E w cfg) of
           Inl e \<Rightarrow> (Some (Panic e), w)
         | Inr t \<Rightarrow>
             (case populate_new_schemas E cfg t seenSchema (Schemas E w (Instance t)) w of
                (ret, w') \<Rightarrow> if ret \<noteq> 0 then (Some (Exit ret), w') else (None, w')))
      else (None, w))"

subsection \<open>pull\<close>

text \<open>
  pull calls itself, and nothing in its text bounds the depth of the calls: the
  first argument counts the calls that may still be nested, and the answer
  \<open>None\<close> says that they did not suffice.  The map \<open>seen\<close> is shared by all
  calls, so it is handed on and returned.  \<open>pull_subdirs\<close> is the loop of lines
  147 to 155.
\<close>
fun pull :: "nat \<Rightarrow> env \<Rightarrow> Config \<Rightarrow> (string \<rightharpoonup> bool) \<Rightarrow> world \<Rightarrow> (outcome \<times> (string \<rightharpoonup> bool) \<times> world) option"
and pull_subdirs :: "nat \<Rightarrow> env \<Rightarrow> Config \<Rightarrow> SkeemaDir list \<Rightarrow> (string \<rightharpoonup> bool) \<Rightarrow> world \<Rightarrow> (outcome \<times> (string \<rightharpoonup> bool) \<times> world) option"
where
  "pull 0 E cfg seen w0 = None"
| "pull (Suc n) E cfg seen w0 =
     (let w = emit (Visit (Path (Dir cfg))) w0 in
      if IsLeaf E w (Dir cfg) then
        (case pull_leaf E cfg w of (r, w') \<Rightarrow> Some (r, seen, w'))
      else
        (case Subdirs E w (Dir cfg) of
           Inl e \<Rightarrow> Some (Exit 1, seen, emit (Printed (UnableToListSubdirs (Dir cfg) e)) w)
         | Inr subdirs \<Rightarrow>
             (case discover E cfg subdirs w of
                (Some r, w') \<Rightarrow> Some (r, seen, w')
              | (None, w') \<Rightarrow>
                  pull_subdirs n E cfg subdirs (seen(Path (Dir cfg) \<mapsto> True)) w')))"
| "pull_subdirs n E cfg [] seen w = Some (Exit 0, seen, w)"
| "pull_subdirs n E cfg (subdir # rest) seen w =
     (if \<not> map_bool seen (Path subdir) then
        (case pull n E (ChangeDir cfg subdir) seen w of
           None \<Rightarrow> None
         | Some (r, seen', w') \<Rightarrow>
             if r \<noteq> Exit 0 then Some (r, seen', w')
             else pull_subdirs n E cfg rest seen' w')
      else pull_subdirs n E cfg rest seen w)"

text \<open>\<^verbatim>\<open>PullCommand\<close>: pull with a fresh map.\<close>
definition PullCommand :: "nat \<Rightarrow> env \<Rightarrow> Config \<Rightarrow> world \<Rightarrow> (outcome \<times> world) option" where
  "PullCommand n E cfg w =
     (case pull n E cfg Map.empty w of
        None \<Rightarrow> None
      | Some (r, seen, w') \<Rightarrow> Some (r, w'))"

subsection \<open>A small tree to run pull on\<close>

text \<open>
  A root directory \<open>/r\<close> for the instance \<open>db1\<close>, with one leaf directory
  \<open>/r/shop\<close> for the schema \<open>shop\<close>.  In \<open>calm\<close> nothing fails and nothing differs.
\<close>
definition shop_target :: Target where
  "shop_target = \<lparr>Instance = ''db1'', SchemaNames = [''shop'']\<rparr>"

definition root_cfg :: Config where
  "root_cfg = \<lparr>Dir = \<lparr>Path = ''/r''\<rparr>\<rparr>"

definition shop_cfg :: Config where
  "shop_cfg = \<lparr>Dir = \<lparr>Path = ''/r/shop''\<rparr>\<rparr>"

definition orders :: Table where
  "orders = \<lparr>Name = ''orders''\<rparr>"

definition legacy :: Table where
  "legacy = \<lparr>Name = ''legacy''\<rparr>"

definition world0 :: world where
  "world0 =
     \<lparr>fs = \<lparr>files = [''/r/shop/legacy.sql'' \<mapsto> ''CREATE TABLE legacy'',
                      ''/r/shop/.skeema'' \<mapsto> ''schema=shop''],
             dirs = {''/r'', ''/r/shop''}\<rparr>,
      temp_schema = False,
      trace = []\<rparr>"

definition calm :: env where
  "calm =
     \<lparr>IsLeaf = (\<lambda>w d. Path d \<noteq> ''/r''),
      IsInstanceWithLeafSubdirs = (\<lambda>w d. Path d = ''/r''),
      Subdirs = (\<lambda>w d. if Path d = ''/r'' then Inr [\<lparr>Path = ''/r/shop''\<rparr>] else Inr []),
      Dir_SkeemaFile = (\<lambda>w d cfg. if Path d = ''/r/shop''
                         then Inr \<lparr>Values = [''schema'' \<mapsto> ''shop'']\<rparr> else Inl ''no .skeema file''),
      Targets = (\<lambda>w cfg. [shop_target]),
      Instance_Schema = (\<lambda>w i name. Some \<lparr>SchemaName = name\<rparr>),
      Schemas = (\<lambda>w i. [\<lparr>SchemaName = ''shop''\<rparr>]),
      TemporarySchema = (\<lambda>w i. Some \<lparr>SchemaName = ''_skeema_tmp''\<rparr>),
      ShowCreateTable = (\<lambda>w i s t. Inr (''CREATE TABLE '' @ Name t)),
      NewSchemaDiff = (\<lambda>from to. []),
      PopulateSchemaDir = (\<lambda>w s i d sub. (0, fs w)),
      Dir_Delete_fault = (\<lambda>w d. None),
      PopulateTemporarySchema_fault = (\<lambda>w cfg. None),
      DropTemporarySchema_fault = (\<lambda>w cfg. None),
      SQLFile_Write_fault = (\<lambda>w sf. None),
      SQLFile_Delete_fault = (\<lambda>w sf. None)\<rparr>"

subsection \<open>Notions the properties are stated with\<close>

text \<open>The world right after pull was entered, and the one in which the leaf branch makes its first call.\<close>
definition entered :: "Config \<Rightarrow> world \<Rightarrow> world" where
  "entered cfg w0 = emit (Visit (Path (Dir cfg))) w0"

definition started :: "Config \<Rightarrow> world \<Rightarrow> world" where
  "started cfg w0 = emit (Printed (Updating (Path (Dir cfg)))) (entered cfg w0)"

text \<open>The file of a table in the directory of the configuration: \<^verbatim>\<open><table>.sql\<close>.\<close>
definition table_file :: "Config \<Rightarrow> Table \<Rightarrow> path" where
  "table_file cfg tb = Path (Dir cfg) @ ''/'' @ Name tb @ ''.sql''"

text \<open>The file a diff entry is about, for the three kinds pull acts on.\<close>
fun touched :: "Config \<Rightarrow> TableDiff \<Rightarrow> path option" where
  "touched cfg (CreateTable tb) = Some (table_file cfg tb)"
| "touched cfg (DropTable tb) = Some (table_file cfg tb)"
| "touched cfg (AlterTable tb) = Some (table_file cfg tb)"
| "touched cfg (RenameTable tb) = None"
| "touched cfg (OtherDiff ty) = None"

subsection \<open>Variations of the small tree\<close>

text \<open>The schema of the leaf directory is gone from the instance.\<close>
definition schema_gone :: env where
  "schema_gone = calm\<lparr>Instance_Schema := (\<lambda>w i name. None)\<rparr>"

text \<open>The table \<open>orders\<close> is new on the instance, and its file cannot be written.\<close>
definition write_fails :: env where
  "write_fails = calm\<lparr>NewSchemaDiff := (\<lambda>from to. [CreateTable orders]),
                     SQLFile_Write_fault := (\<lambda>w sf. Some ''permission denied'')\<rparr>"



text \<open>The table \<open>legacy\<close> is gone and the diff reports a rename of \<open>orders\<close>.\<close>
definition orders_renamed :: env where
  "orders_renamed = calm\<lparr>NewSchemaDiff := (\<lambda>from to. [DropTable legacy, RenameTable orders])\<rparr>"


text \<open>The configuration resolves to two targets, the first with two schema names.\<close>
definition two_targets :: env where
  "two_targets = calm\<lparr>Targets := (\<lambda>w cfg.
      [\<lparr>Instance = ''db1'', SchemaNames = [''shop'', ''archive'']\<rparr>,
       \<lparr>Instance = ''db2'', SchemaNames = [''shop'']\<rparr>])\<rparr>"

text \<open>The configuration resolves to no target.\<close>
definition no_targets :: env where
  "no_targets = calm\<lparr>Targets := (\<lambda>w cfg. [])\<rparr>"


text \<open>
  \<open>calls E outer inner\<close>: the call \<open>outer\<close> of pull (its count, configuration, map and
  world) is on a directory that is not a leaf, passes the discovery, and its loop over
  the sub-directories gets as far as the recursive call \<open>inner\<close>.
\<close>
inductive calls :: "env \<Rightarrow> nat \<times> Config \<times> (string \<rightharpoonup> bool) \<times> world \<Rightarrow> nat \<times> Config \<times> (string \<rightharpoonup> bool) \<times> world \<Rightarrow> bool"
  for E :: env where
  "\<not> IsLeaf E (entered cfg w0) (Dir cfg) \<Longrightarrow>
   Subdirs E (entered cfg w0) (Dir cfg) = Inr (pre @ subdir # post) \<Longrightarrow>
   discover E cfg (pre @ subdir # post) (entered cfg w0) = (None, w1) \<Longrightarrow>
   pull_subdirs n E cfg pre (seen(Path (Dir cfg) \<mapsto> True)) w1 = Some (Exit 0, seen', w') \<Longrightarrow>
   \<not> map_bool seen' (Path subdir) \<Longrightarrow>
   calls E (Suc n, cfg, seen, w0) (n, ChangeDir cfg subdir, seen', w')"

text \<open>The definition text of \<open>orders\<close> cannot be generated.\<close>
definition show_fails :: env where
  "show_fails = calm\<lparr>NewSchemaDiff := (\<lambda>from to. [DropTable legacy, AlterTable orders]),
                     ShowCreateTable := (\<lambda>w i s t. Inl ''Error 1146: table does not exist'')\<rparr>"


text \<open>
  The instance has the schemas \<open>shop\<close>, \<open>archive\<close>, \<open>stats\<close> and \<open>logs\<close>; a directory
  can be made for each but \<open>stats\<close>, for which \<^verbatim>\<open>PopulateSchemaDir\<close> returns 1.
\<close>
definition discovery_fails :: env where
  "discovery_fails =
     calm\<lparr>Schemas := (\<lambda>w i. [\<lparr>SchemaName = ''shop''\<rparr>, \<lparr>SchemaName = ''archive''\<rparr>,
                            \<lparr>SchemaName = ''stats''\<rparr>, \<lparr>SchemaName = ''logs''\<rparr>]),
          PopulateSchemaDir := (\<lambda>w s i d sub.
            if SchemaName s = ''stats'' then (1, fs w)
            else (0, (fs w)\<lparr>dirs := insert (Path d @ ''/'' @ SchemaName s) (dirs (fs w))\<rparr>))\<rparr>"

text \<open>The root has a second sub-directory \<open>/r/blog\<close>; the file of \<open>orders\<close> in the first cannot be written.\<close>
definition first_subdir_fails :: env where
  "first_subdir_fails =
     write_fails\<lparr>Subdirs := (\<lambda>w d. if Path d = ''/r''
                    then Inr [\<lparr>Path = ''/r/shop''\<rparr>, \<lparr>Path = ''/r/blog''\<rparr>] else Inr [])\<rparr>"


text \<open>The paths of \<open>U\<close> that the map does not mark as seen.\<close>
definition unseen :: "path set \<Rightarrow> (string \<rightharpoonup> bool) \<Rightarrow> path set" where
  "unseen U seen = {p \<in> U. \<not> map_bool seen p}"

text \<open>
  The root lists two entries that resolve to the same directory \<open>/r/shop\<close> (the second
  a symbolic link to the first): both carry the canonical path.
\<close>
definition twice_listed :: env where
  "twice_listed =
     calm\<lparr>Subdirs := (\<lambda>w d. if Path d = ''/r''
             then Inr [\<lparr>Path = ''/r/shop''\<rparr>, \<lparr>Path = ''/r/shop''\<rparr>] else Inr [])\<rparr>"

text \<open>The root lists \<open>/r/shop\<close> and a symbolic link that resolves to the root itself.\<close>
definition link_to_root :: env where
  "link_to_root =
     calm\<lparr>Subdirs := (\<lambda>w d. if Path d = ''/r''
             then Inr [\<lparr>Path = ''/r/shop''\<rparr>, \<lparr>Path = ''/r''\<rparr>] else Inr [])\<rparr>"


subsection \<open>Two runs in a row\<close>

text \<open>
  What a second run finds is decided by code outside \<^verbatim>\<open>pull.go\<close>: the diff engine, the
  temporary schema, the listing of directories and \<^verbatim>\<open>PopulateSchemaDir\<close>.  The
  description of the system says what each of them does; the predicates below state
  that of an \<open>env\<close>, in terms of what lies at or below a directory.
\<close>

text \<open>Two file systems hold the same at and below \<open>d\<close>; and the same everywhere else.\<close>
definition same_within :: "path \<Rightarrow> filesys \<Rightarrow> filesys \<Rightarrow> bool" where
  "same_within d F F' \<longleftrightarrow>
     (\<forall>p. within d p \<longrightarrow> files F p = files F' p \<and> (p \<in> dirs F \<longleftrightarrow> p \<in> dirs F'))"

definition same_outside :: "path \<Rightarrow> filesys \<Rightarrow> filesys \<Rightarrow> bool" where
  "same_outside d F F' \<longleftrightarrow>
     (\<forall>p. \<not> within d p \<longrightarrow> files F p = files F' p \<and> (p \<in> dirs F \<longleftrightarrow> p \<in> dirs F'))"

text \<open>\<open>child d k\<close>: the path \<open>k\<close> names an entry of the directory \<open>d\<close> itself.\<close>
definition child :: "path \<Rightarrow> path \<Rightarrow> bool" where
  "child d k \<longleftrightarrow>
     prefix (d @ ''/'') k \<and> drop (Suc (length d)) k \<noteq> [] \<and> CHR ''/'' \<notin> set (drop (Suc (length d)) k)"


text \<open>
  The world in which pull asks for the temporary schema (after a successful
  \<open>PopulateTemporarySchema\<close>), and the diff the leaf branch computes when it starts in \<open>w\<close>.
\<close>
definition staged :: "Config \<Rightarrow> world \<Rightarrow> world" where
  "staged cfg w = (emit (Call_PopulateTemporarySchema (Path (Dir cfg))) w)\<lparr>temp_schema := True\<rparr>"

definition leaf_diff :: "env \<Rightarrow> Config \<Rightarrow> Target \<Rightarrow> Schema \<Rightarrow> world \<Rightarrow> TableDiff list" where
  "leaf_diff E cfg t to w = NewSchemaDiff E (TemporarySchema E (staged cfg w) (Instance t)) (Some to)"

text \<open>
  Modelled from the spec: the configuration reader is not in \<^verbatim>\<open>pull.go\<close>.  Directories
  are bound to their configuration and to their classification (leaf, instance with leaf
  sub-directories, other); pull writes table files only, so what the reader answers for
  a directory is the same in every world.
\<close>
definition fixed_configuration :: "env \<Rightarrow> bool" where
  "fixed_configuration E \<longleftrightarrow>
     (\<forall>w w' d. IsLeaf E w d = IsLeaf E w' d)
   \<and> (\<forall>w w' d. IsInstanceWithLeafSubdirs E w d = IsInstanceWithLeafSubdirs E w' d)
   \<and> (\<forall>w w' d cfg. Dir_SkeemaFile E w d cfg = Dir_SkeemaFile E w' d cfg)
   \<and> (\<forall>w w' cfg. Targets E w cfg = Targets E w' cfg)"

text \<open>
  Modelled from the spec: no change of the database between or during the runs.  The
  schemas of an instance are the same in every world, and a schema the instance lists
  can be fetched by its name.
\<close>
definition database_unchanged :: "env \<Rightarrow> bool" where
  "database_unchanged E \<longleftrightarrow>
     (\<forall>w w' i name. Instance_Schema E w i name = Instance_Schema E w' i name)
   \<and> (\<forall>w w' i. Schemas E w i = Schemas E w' i)
   \<and> (\<forall>w i s. s \<in> set (Schemas E w i) \<longrightarrow> Instance_Schema E w i (SchemaName s) \<noteq> None)"

text \<open>
  Modelled from the spec: \<^verbatim>\<open>SkeemaDir.Subdirs\<close> is not in \<^verbatim>\<open>pull.go\<close>.  The spec's
  directories have their path as unique key and a parent/child relationship that is a
  tree: \<open>kids d\<close> are the entries \<open>d\<close> can have, each an entry of \<open>d\<close> itself and none
  listed twice (no symbolic link leads elsewhere), and a listing shows those of them
  that exist.
\<close>
definition listing :: "env \<Rightarrow> (SkeemaDir \<Rightarrow> SkeemaDir list) \<Rightarrow> bool" where
  "listing E kids \<longleftrightarrow>
     (\<forall>w d ds. Subdirs E w d = Inr ds \<longrightarrow> ds = filter (\<lambda>k. Path k \<in> dirs (fs w)) (kids d))
   \<and> (\<forall>d k. k \<in> set (kids d) \<longrightarrow> child (Path d) (Path k))
   \<and> (\<forall>d. distinct (kids d))"

text \<open>
  Modelled from the spec: below an instance directory, a sub-directory that declares a
  schema stands for that schema of the same instance (its target names the instance and
  the schema first).
\<close>
definition schema_directories :: "env \<Rightarrow> (SkeemaDir \<Rightarrow> SkeemaDir list) \<Rightarrow> bool" where
  "schema_directories E kids \<longleftrightarrow>
     (\<forall>w cfg t k skf s.
        IsInstanceWithLeafSubdirs E w (Dir cfg) \<and> index0 (Targets E w cfg) = Inr t
        \<and> k \<in> set (kids (Dir cfg)) \<and> Dir_SkeemaFile E w k cfg = Inr skf
        \<and> Values skf ''schema'' = Some s \<longrightarrow>
        (\<exists>t'. index0 (Targets E w (ChangeDir cfg k)) = Inr t' \<and> Instance t' = Instance t
            \<and> index0 (SchemaNames t') = Inr s))"

text \<open>
  Modelled from the spec: the diff engine and the temporary schema are not in
  \<^verbatim>\<open>pull.go\<close>.  The entries of a diff say which table files differ from the live
  schema (Create: no file; Drop: the file remains; Alter: the file differs).  Once pull
  has applied every entry of the diff of a leaf directory, the engine finds nothing to
  report there, in any world that holds the same at and below the directory.
\<close>
definition diff_engine_contract :: "env \<Rightarrow> bool" where
  "diff_engine_contract E \<longleftrightarrow>
     (\<forall>cfg t name to w w1.
        IsLeaf E w (Dir cfg) \<and> index0 (Targets E w cfg) = Inr t \<and> index0 (SchemaNames t) = Inr name
        \<and> Instance_Schema E w (Instance t) name = Some to
        \<and> apply_diffs E cfg t to (leaf_diff E cfg t to w) (emit Call_NewSchemaDiff (staged cfg w)) = (None, w1) \<longrightarrow>
        (\<forall>w2. same_within (Path (Dir cfg)) (fs w2) (fs w1) \<longrightarrow> leaf_diff E cfg t to w2 = []))"

text \<open>The directory \<^verbatim>\<open>PopulateSchemaDir\<close> makes for a schema below \<open>d\<close>.\<close>
definition schema_dir :: "SkeemaDir \<Rightarrow> Schema \<Rightarrow> SkeemaDir" where
  "schema_dir d s = \<lparr>Path = Path d @ ''/'' @ SchemaName s\<rparr>"

text \<open>
  Modelled from the spec: \<^verbatim>\<open>PopulateSchemaDir\<close> is not in \<^verbatim>\<open>pull.go\<close>.  When it
  returns 0 for a schema of the instance, it has made the sub-directory of the schema
  (directory, configuration file, one file per table) and changed nothing else: the
  sub-directory exists and is listed, it is a leaf that declares the schema, and the
  diff engine finds it in line with the schema it resolves to.
\<close>
definition populate_contract :: "env \<Rightarrow> (SkeemaDir \<Rightarrow> SkeemaDir list) \<Rightarrow> bool" where
  "populate_contract E kids \<longleftrightarrow>
     (\<forall>w cfg t s F'.
        IsInstanceWithLeafSubdirs E w (Dir cfg) \<and> index0 (Targets E w cfg) = Inr t
        \<and> s \<in> set (Schemas E w (Instance t))
        \<and> PopulateSchemaDir E w s (Instance t) (Dir cfg) True = (0, F') \<longrightarrow>
        schema_dir (Dir cfg) s \<in> set (kids (Dir cfg))
        \<and> same_outside (Path (schema_dir (Dir cfg) s)) (fs w) F'
        \<and> Path (schema_dir (Dir cfg) s) \<in> dirs F'
        \<and> IsLeaf E w (schema_dir (Dir cfg) s)
        \<and> (\<exists>skf. Dir_SkeemaFile E w (schema_dir (Dir cfg) s) cfg = Inr skf
              \<and> Values skf ''schema'' = Some (SchemaName s))
        \<and> (\<exists>t' name to.
              index0 (Targets E w (ChangeDir cfg (schema_dir (Dir cfg) s))) = Inr t'
              \<and> index0 (SchemaNames t') = Inr name
              \<and> Instance_Schema E w (Instance t') name = Some to
              \<and> (\<forall>w2. same_within (Path (schema_dir (Dir cfg) s)) (fs w2) F' \<longrightarrow>
                    leaf_diff E (ChangeDir cfg (schema_dir (Dir cfg) s)) t' to w2 = [])))"

text \<open>
  \<open>clean E n cfg F\<close>: in every world that holds the same as \<open>F\<close> at and below the
  directory, pull called with the count \<open>n\<close> returns and leaves the file system as it was.
\<close>
definition clean :: "env \<Rightarrow> nat \<Rightarrow> Config \<Rightarrow> filesys \<Rightarrow> bool" where
  "clean E n cfg F \<longleftrightarrow>
     (\<forall>seen w. same_within (Path (Dir cfg)) (fs w) F \<longrightarrow>
        (\<exists>r seen' w'. pull n E cfg seen w = Some (r, seen', w') \<and> fs w' = fs w))"





text \<open>
  An instance with the schemas \<open>shop\<close> and \<open>archive\<close>, each with the one table
  \<open>orders\<close>, and collaborators that read the file system.  The name of the temporary
  schema records what the directory pull has populated it from holds: \<open>L\<close> when a file
  of \<open>legacy\<close> is there, \<open>C\<close> when the file of \<open>orders\<close> is missing, \<open>A\<close> when it holds
  another text; the diff engine turns these marks into entries.
\<close>
definition staged_dir :: "world \<Rightarrow> path" where
  "staged_dir w =
     (case rev (trace w) of
        Call_PopulateTemporarySchema p # _ \<Rightarrow> p
      | _ \<Rightarrow> [])"

definition stale_marks :: "filesys \<Rightarrow> path \<Rightarrow> string" where
  "stale_marks F p =
     (if files F (p @ ''/legacy.sql'') = None then [] else ''L'')
     @ (case files F (p @ ''/orders.sql'') of
          None \<Rightarrow> ''C''
        | Some c \<Rightarrow> if c = ''CREATE TABLE orders'' then [] else ''A'')"

definition marked_diff :: "string \<Rightarrow> TableDiff list" where
  "marked_diff marks =
     (if CHR ''L'' \<in> set marks then [DropTable legacy] else [])
     @ (if CHR ''C'' \<in> set marks then [CreateTable orders]
        else if CHR ''A'' \<in> set marks then [AlterTable orders] else [])"

definition two_schema_kids :: "SkeemaDir \<Rightarrow> SkeemaDir list" where
  "two_schema_kids d =
     (if Path d = ''/r'' then [\<lparr>Path = ''/r/shop''\<rparr>, \<lparr>Path = ''/r/archive''\<rparr>] else [])"

definition in_step :: env where
  "in_step =
     calm\<lparr>Subdirs := (\<lambda>w d. Inr (filter (\<lambda>k. Path k \<in> dirs (fs w)) (two_schema_kids d))),
          Dir_SkeemaFile := (\<lambda>w d cfg.
             if Path d = ''/r/shop'' then Inr \<lparr>Values = [''schema'' \<mapsto> ''shop'']\<rparr>
             else if Path d = ''/r/archive'' then Inr \<lparr>Values = [''schema'' \<mapsto> ''archive'']\<rparr>
             else Inl ''no .skeema file''),
          Targets := (\<lambda>w cfg. [\<lparr>Instance = ''db1'',
             SchemaNames = (if Path (Dir cfg) = ''/r/archive'' then [''archive''] else [''shop''])\<rparr>]),
          Schemas := (\<lambda>w i. [\<lparr>SchemaName = ''shop''\<rparr>, \<lparr>SchemaName = ''archive''\<rparr>]),
          TemporarySchema := (\<lambda>w i. Some \<lparr>SchemaName = stale_marks (fs w) (staged_dir w)\<rparr>),
          NewSchemaDiff := (\<lambda>from to. case from of None \<Rightarrow> [] | Some s \<Rightarrow> marked_diff (SchemaName s)),
          PopulateSchemaDir := (\<lambda>w s i d sub.
             if Path d = ''/r'' \<and> (SchemaName s = ''shop'' \<or> SchemaName s = ''archive'')
             then (0, \<lparr>files = (files (fs w))(Path d @ ''/'' @ SchemaName s @ ''/orders.sql'' \<mapsto> ''CREATE TABLE orders'',
                                               Path d @ ''/'' @ SchemaName s @ ''/legacy.sql'' := None),
                        dirs = insert (Path d @ ''/'' @ SchemaName s) (dirs (fs w))\<rparr>)
             else (1, fs w))\<rparr>"

text \<open>
  The same, with a disk that is full at first: a file cannot be written unless a write
  of it has been tried before.
\<close>
definition disk_full_once :: env where
  "disk_full_once =
     in_step\<lparr>SQLFile_Write_fault := (\<lambda>w sf.
        if Call_SQLFile_Write (SQLFile_Path sf) \<in> set (trace w) then None else Some ''disk full'')\<rparr>"



section \<open>Properties\<close>

subsection \<open>Basic facts\<close>

lemma emit_fs: "fs (emit e w) = fs w"
  by (simp add: emit_def)

lemma emit_temp_schema: "temp_schema (emit e w) = temp_schema w"
  by (simp add: emit_def)

lemma pull_at_leaf:
  "IsLeaf E (entered cfg w0) (Dir cfg) \<Longrightarrow>
   pull (Suc n) E cfg seen w0 =
     Some (fst (pull_leaf E cfg (entered cfg w0)), seen, snd (pull_leaf E cfg (entered cfg w0)))"
  by (simp add: entered_def Let_def split: prod.splits)

lemma pull_at_node:
  assumes "\<not> IsLeaf E (entered cfg w0) (Dir cfg)"
    and "Subdirs E (entered cfg w0) (Dir cfg) = Inr subdirs"
  shows "pull (Suc n) E cfg seen w0 =
     (case discover E cfg subdirs (entered cfg w0) of
        (Some r, w') \<Rightarrow> Some (r, seen, w')
      | (None, w') \<Rightarrow> pull_subdirs n E cfg subdirs (seen(Path (Dir cfg) \<mapsto> True)) w')"
  using assms by (simp add: entered_def Let_def)

text \<open>
  Unfolding the small tree and the steps of the model, to run pull on an example.
\<close>

lemmas tree_defs = calm_def world0_def shop_cfg_def root_cfg_def shop_target_def orders_def legacy_def

lemmas step_defs = pull_leaf_def leaf_begin_def leaf_end_def index0_def emit_def entered_def started_def
  PopulateTemporarySchema_def DropTemporarySchema_def SQLFile_Write_def SQLFile_Delete_def
  SQLFile_Path_def Dir_Delete_def table_file_def Let_def

lemmas node_defs = discover_def call_PopulateSchemaDir_def ChangeDir_def HasField_def map_string_def
  map_bool_def

subsection \<open>The count of nested calls\<close>

text \<open>
  A larger count changes no result: what pull returns does not depend on the count once it suffices.
\<close>

lemma pull_subdirs_fuel:
  assumes A: "\<And>cfg seen w x. pull n E cfg seen w = Some x \<Longrightarrow> pull (Suc n) E cfg seen w = Some x"
  shows "pull_subdirs n E cfg ds seen w = Some y \<Longrightarrow> pull_subdirs (Suc n) E cfg ds seen w = Some y"
proof (induction ds arbitrary: seen w)
  case Nil
  then show ?case by simp
next
  case (Cons d ds)
  show ?case
  proof (cases "map_bool seen (Path d)")
    case True
    with Cons show ?thesis by (simp del: pull.simps)
  next
    case False
    show ?thesis
    proof (cases "pull n E (ChangeDir cfg d) seen w")
      case None
      with False Cons.prems show ?thesis by (simp del: pull.simps)
    next
      case (Some res)
      obtain r1 seen1 w1 where res: "res = (r1, seen1, w1)" by (cases res)
      from A [OF Some] have up: "pull (Suc n) E (ChangeDir cfg d) seen w = Some (r1, seen1, w1)"
        by (simp add: res)
      show ?thesis
      proof (cases "r1 = Exit 0")
        case True
        with False Some res Cons.prems
        have "pull_subdirs n E cfg ds seen1 w1 = Some y" by (simp del: pull.simps)
        from Cons.IH [OF this] False up True show ?thesis by (simp del: pull.simps)
      next
        case ne: False
        with False Some res Cons.prems up show ?thesis by (auto simp del: pull.simps)
      qed
    qed
  qed
qed

lemma pull_fuel:
  "pull n E cfg seen w = Some x \<Longrightarrow> pull (Suc n) E cfg seen w = Some x"
proof (induction n arbitrary: cfg seen w x)
  case 0
  then show ?case by simp
next
  case (Suc n)
  let ?w = "entered cfg w"
  show ?case
  proof (cases "IsLeaf E ?w (Dir cfg)")
    case True
    from Suc.prems show ?thesis
      by (simp add: pull_at_leaf [OF True] del: pull.simps)
  next
    case False
    show ?thesis
    proof (cases "Subdirs E ?w (Dir cfg)")
      case (Inl e)
      with False Suc.prems show ?thesis by (simp add: entered_def Let_def)
    next
      case (Inr ds)
      show ?thesis
      proof (cases "discover E cfg ds ?w")
        case (Pair r1 w1)
        show ?thesis
        proof (cases r1)
          case (Some a)
          with Pair Suc.prems show ?thesis
            by (simp add: pull_at_node [OF False Inr] del: pull.simps)
        next
          case None
          with Pair Suc.prems
          have "pull_subdirs n E cfg ds (seen(Path (Dir cfg) \<mapsto> True)) w1 = Some x"
            by (simp add: pull_at_node [OF False Inr] del: pull.simps)
          from pull_subdirs_fuel [OF Suc.IH this] None Pair show ?thesis
            by (simp add: pull_at_node [OF False Inr] del: pull.simps)
        qed
      qed
    qed
  qed
qed

lemma pull_fuel_le:
  "pull n E cfg seen w = Some x \<Longrightarrow> n \<le> m \<Longrightarrow> pull m E cfg seen w = Some x"
  by (induction m) (auto simp: le_Suc_eq pull_fuel simp del: pull.simps)

subsection \<open>The loop over the diff\<close>

lemma apply_diffs_append:
  "apply_diffs E cfg t to (xs @ ys) w =
     (case apply_diffs E cfg t to xs w of
        (Some r, w') \<Rightarrow> (Some r, w')
      | (None, w') \<Rightarrow> apply_diffs E cfg t to ys w')"
  by (induction xs arbitrary: w) (auto split: prod.splits option.splits)

lemma SQLFile_Write_files:
  "files (fs (snd (SQLFile_Write E sf w))) =
     (case SQLFile_Write_fault E w sf of
        None \<Rightarrow> (files (fs w))(SQLFile_Path sf \<mapsto> Contents sf)
      | Some e \<Rightarrow> files (fs w))"
  by (simp add: SQLFile_Write_def Let_def emit_def split: option.splits)

lemma SQLFile_Write_rest:
  "dirs (fs (snd (SQLFile_Write E sf w))) = dirs (fs w)"
  "temp_schema (snd (SQLFile_Write E sf w)) = temp_schema w"
  by (simp_all add: SQLFile_Write_def Let_def emit_def split: option.splits)

lemma SQLFile_Delete_files:
  "p \<noteq> SQLFile_Path sf \<Longrightarrow> files (fs (snd (SQLFile_Delete E sf w))) p = files (fs w) p"
  by (simp add: SQLFile_Delete_def Let_def emit_def split: option.splits)

lemma SQLFile_Delete_rest:
  "dirs (fs (snd (SQLFile_Delete E sf w))) = dirs (fs w)"
  "temp_schema (snd (SQLFile_Delete E sf w)) = temp_schema w"
  by (simp_all add: SQLFile_Delete_def Let_def emit_def split: option.splits)

lemma table_file_Path:
  "SQLFile_Path \<lparr>SQLFile_Dir = Dir cfg, FileName = Name tb @ ''.sql'', Contents = c\<rparr> = table_file cfg tb"
  by (simp add: SQLFile_Path_def table_file_def)

lemma apply_diff_files:
  "touched cfg td \<noteq> Some p \<Longrightarrow> files (fs (snd (apply_diff E cfg t to td w))) p = files (fs w) p"
proof (cases td)
  case (CreateTable tb)
  assume "touched cfg td \<noteq> Some p"
  with CreateTable have ne: "p \<noteq> table_file cfg tb" by auto
  show ?thesis
    using ne unfolding CreateTable
    by (auto simp: Let_def emit_fs SQLFile_Write_def emit_def table_file_Path
        split: sum.splits prod.splits option.splits)
next
  case (DropTable tb)
  assume "touched cfg td \<noteq> Some p"
  with DropTable have ne: "p \<noteq> table_file cfg tb" by auto
  show ?thesis
    using ne unfolding DropTable
    by (auto simp: Let_def emit_fs SQLFile_Delete_def emit_def table_file_Path
        split: sum.splits prod.splits option.splits if_splits)
next
  case (AlterTable tb)
  assume "touched cfg td \<noteq> Some p"
  with AlterTable have ne: "p \<noteq> table_file cfg tb" by auto
  show ?thesis
    using ne unfolding AlterTable
    by (auto simp: Let_def emit_fs SQLFile_Write_def emit_def table_file_Path
        split: sum.splits prod.splits option.splits)
qed simp_all

lemma apply_diff_rest:
  "dirs (fs (snd (apply_diff E cfg t to td w))) = dirs (fs w)
   \<and> temp_schema (snd (apply_diff E cfg t to td w)) = temp_schema w"
  by (cases td)
    (auto simp: Let_def SQLFile_Write_def SQLFile_Delete_def emit_def
      split: sum.splits prod.splits option.splits if_splits)

lemma apply_diffs_files:
  "(\<forall>td \<in> set diff. touched cfg td \<noteq> Some p) \<Longrightarrow>
   files (fs (snd (apply_diffs E cfg t to diff w))) p = files (fs w) p"
proof (induction diff arbitrary: w)
  case Nil
  then show ?case by simp
next
  case (Cons td tds)
  have step: "files (fs (snd (apply_diff E cfg t to td w))) p = files (fs w) p"
    using Cons.prems by (simp add: apply_diff_files)
  show ?case
  proof (cases "apply_diff E cfg t to td w")
    case (Pair r w')
    with step have eq: "files (fs w') p = files (fs w) p" by simp
    show ?thesis
    proof (cases r)
      case None
      with Pair Cons.IH [of w'] Cons.prems eq show ?thesis by simp
    next
      case (Some a)
      with Pair eq show ?thesis by simp
    qed
  qed
qed

lemma apply_diffs_rest:
  "dirs (fs (snd (apply_diffs E cfg t to diff w))) = dirs (fs w)
   \<and> temp_schema (snd (apply_diffs E cfg t to diff w)) = temp_schema w"
proof (induction diff arbitrary: w)
  case Nil
  then show ?case by simp
next
  case (Cons td tds)
  show ?case
  proof (cases "apply_diff E cfg t to td w")
    case (Pair r w')
    with apply_diff_rest [of E cfg t to td w]
    have eq: "dirs (fs w') = dirs (fs w)" "temp_schema w' = temp_schema w" by simp_all
    show ?thesis
      using Pair eq Cons.IH [of w'] by (cases r) simp_all
  qed
qed

lemma apply_diff_nonzero:
  "fst (apply_diff E cfg t to td w) = Some r \<Longrightarrow> r = Exit 1 \<or> (\<exists>e. r = Panic e)"
  by (cases td) (auto simp: Let_def split: sum.splits prod.splits option.splits)

lemma apply_diffs_nonzero:
  "fst (apply_diffs E cfg t to diff w) = Some r \<Longrightarrow> r = Exit 1 \<or> (\<exists>e. r = Panic e)"
proof (induction diff arbitrary: w)
  case Nil
  then show ?case by simp
next
  case (Cons td tds)
  show ?case
  proof (cases "apply_diff E cfg t to td w")
    case (Pair r' w')
    show ?thesis
    proof (cases r')
      case None
      with Pair Cons show ?thesis by simp
    next
      case (Some a)
      with Pair Cons.prems have "fst (apply_diff E cfg t to td w) = Some r" by simp
      then show ?thesis by (rule apply_diff_nonzero)
    qed
  qed
qed





lemma leaf_begin_Inr:
  "leaf_begin E cfg w0 = (Inr (t, to, diff), w) \<Longrightarrow>
     fs w = fs w0 \<and> temp_schema w
     \<and> trace w = trace w0 @ [Printed (Updating (Path (Dir cfg))),
                              Call_PopulateTemporarySchema (Path (Dir cfg)), Call_NewSchemaDiff]"
  by (auto simp: leaf_begin_def Let_def Dir_Delete_def PopulateTemporarySchema_def emit_def
      split: sum.splits option.splits prod.splits)

lemma pull_leaf_loop:
  assumes leaf: "IsLeaf E (entered cfg w0) (Dir cfg)"
    and lb: "leaf_begin E cfg (entered cfg w0) = (Inr (t, to, diff), w)"
  shows "pull (Suc n) E cfg seen w0 =
     (case apply_diffs E cfg t to diff w of
        (Some r, w') \<Rightarrow> Some (r, seen, w')
      | (None, w') \<Rightarrow> Some (fst (leaf_end E cfg w'), seen, snd (leaf_end E cfg w')))"
  unfolding pull_at_leaf [OF leaf]
  by (simp add: pull_leaf_def lb split: prod.splits option.splits)


lemma rename_stops_loop:
  "RenameTable tb \<in> set diff \<Longrightarrow> \<exists>r. fst (apply_diffs E cfg t to diff w) = Some r"
proof (induction diff arbitrary: w)
  case Nil
  then show ?case by simp
next
  case (Cons td tds)
  show ?case
  proof (cases "apply_diff E cfg t to td w")
    case (Pair r w')
    show ?thesis
    proof (cases r)
      case None
      with Pair have "td \<noteq> RenameTable tb" by auto
      with Cons.prems have "RenameTable tb \<in> set tds" by simp
      from Cons.IH [OF this, of w'] Pair None show ?thesis by simp
    next
      case (Some a)
      with Pair show ?thesis by simp
    qed
  qed
qed

lemma apply_diff_no_release:
  "\<exists>evs. trace (snd (apply_diff E cfg t to td w)) = trace w @ evs
      \<and> Call_DropTemporarySchema p \<notin> set evs"
  by (cases td)
    (auto simp: Let_def SQLFile_Write_def SQLFile_Delete_def emit_def
      split: sum.splits prod.splits option.splits if_splits)

lemma apply_diffs_no_release:
  "\<exists>evs. trace (snd (apply_diffs E cfg t to diff w)) = trace w @ evs
      \<and> Call_DropTemporarySchema p \<notin> set evs"
proof (induction diff arbitrary: w)
  case Nil
  then show ?case by simp
next
  case (Cons td tds)
  show ?case
  proof (cases "apply_diff E cfg t to td w")
    case (Pair r w')
    from apply_diff_no_release [of E cfg t to td w p] Pair
    obtain evs where e1: "trace w' = trace w @ evs" "Call_DropTemporarySchema p \<notin> set evs"
      by auto
    show ?thesis
    proof (cases r)
      case None
      from Cons.IH [of w'] obtain evs' where
        "trace (snd (apply_diffs E cfg t to tds w')) = trace w' @ evs'"
        "Call_DropTemporarySchema p \<notin> set evs'" by blast
      with e1 None Pair show ?thesis
        by (intro exI [of _ "evs @ evs'"]) simp
    next
      case (Some a)
      with e1 Pair show ?thesis by (intro exI [of _ evs]) simp
    qed
  qed
qed

subsection \<open>The loop over the sub-directories\<close>

lemma pull_subdirs_append:
  "pull_subdirs n E cfg (xs @ ys) seen w =
     (case pull_subdirs n E cfg xs seen w of
        None \<Rightarrow> None
      | Some (r, seen', w') \<Rightarrow>
          if r \<noteq> Exit 0 then Some (r, seen', w') else pull_subdirs n E cfg ys seen' w')"
proof (induction xs arbitrary: seen w)
  case Nil
  then show ?case by simp
next
  case (Cons d ds)
  show ?case
  proof (cases "map_bool seen (Path d)")
    case True
    with Cons.IH [of seen w] show ?thesis by simp
  next
    case False
    show ?thesis
    proof (cases "pull n E (ChangeDir cfg d) seen w")
      case None
      with False show ?thesis by simp
    next
      case (Some res)
      obtain r seen' w' where res: "res = (r, seen', w')" by (cases res)
      show ?thesis
        using False Some res Cons.IH [of seen' w'] by simp
    qed
  qed
qed

lemma calls_result:
  assumes c: "calls E (m, cfg, seen, w0) (n, cfg', seen', w')"
    and run: "pull n E cfg' seen' w' = Some (r, s, wz)"
    and bad: "r \<noteq> Exit 0"
  shows "pull m E cfg seen w0 = Some (r, s, wz)"
  using c
proof (cases rule: calls.cases)
  case (1 pre subdir post w1)
  have "pull_subdirs n E cfg (pre @ subdir # post) (seen(Path (Dir cfg) \<mapsto> True)) w1 = Some (r, s, wz)"
    using 1 run bad by (simp add: pull_subdirs_append)
  then show ?thesis
    using 1 by (simp add: pull_at_node del: pull.simps)
qed

lemma calls_rtrancl_result:
  assumes c: "(calls E)\<^sup>*\<^sup>* outer inner"
    and run: "pull (fst inner) E (fst (snd inner)) (fst (snd (snd inner))) (snd (snd (snd inner))) = Some (r, s, wz)"
    and bad: "r \<noteq> Exit 0"
  shows "pull (fst outer) E (fst (snd outer)) (fst (snd (snd outer))) (snd (snd (snd outer))) = Some (r, s, wz)"
  using c run
proof (induction rule: rtranclp_induct)
  case base
  then show ?case by simp
next
  case (step y z)
  obtain m cfg1 seen1 w1 where y: "y = (m, cfg1, seen1, w1)" by (cases y)
  obtain n cfg2 seen2 w2 where z: "z = (n, cfg2, seen2, w2)" by (cases z)
  from step.hyps(2) step.prems bad have "pull m E cfg1 seen1 w1 = Some (r, s, wz)"
    unfolding y z by (auto intro: calls_result)
  with step.IH show ?case by (simp add: y)
qed

subsection \<open>The discovery of schemas\<close>

lemma populate_new_schemas_append:
  "populate_new_schemas E cfg t m (xs @ ys) w =
     (case populate_new_schemas E cfg t m xs w of
        (ret, w') \<Rightarrow> if ret \<noteq> 0 then (ret, w') else populate_new_schemas E cfg t m ys w')"
  by (induction xs arbitrary: w) (auto split: prod.splits)






subsection \<open>Termination\<close>

text \<open>
  When all paths that \<^verbatim>\<open>Subdirs\<close> can answer with lie in a finite set \<open>U\<close>, pull returns:
  a count above the size of \<open>U\<close> suffices, since every nested call is on a path that
  the map did not hold and marks it or is on a leaf.
\<close>
lemma unseen_finite: "finite U \<Longrightarrow> finite (unseen U seen)"
  by (simp add: unseen_def)

lemma unseen_mark:
  "unseen U (seen(p \<mapsto> True)) = unseen U seen - {p}"
  by (auto simp: unseen_def map_bool_def)

lemma unseen_card_less:
  assumes "finite U" "p \<in> U" "\<not> map_bool seen p"
  shows "card (unseen U (seen(p \<mapsto> True))) < card (unseen U seen)"
proof -
  have "p \<in> unseen U seen" using assms by (simp add: unseen_def)
  with unseen_finite [OF assms(1), of seen] show ?thesis
    unfolding unseen_mark by (rule card_Diff1_less)
qed

lemma pull_subdirs_returns:
  assumes fin: "finite U"
    and A: "\<And>cfg seen w. Path (Dir cfg) \<in> U \<Longrightarrow> \<not> map_bool seen (Path (Dir cfg)) \<Longrightarrow>
              card (unseen U seen) \<le> n \<Longrightarrow>
              \<exists>r seen' w'. pull n E cfg seen w = Some (r, seen', w') \<and> unseen U seen' \<subseteq> unseen U seen"
  shows "Path ` set ds \<subseteq> U \<Longrightarrow> card (unseen U seen) \<le> n \<Longrightarrow>
     \<exists>r seen' w'. pull_subdirs n E cfg ds seen w = Some (r, seen', w') \<and> unseen U seen' \<subseteq> unseen U seen"
proof (induction ds arbitrary: seen w)
  case Nil
  then show ?case by simp
next
  case (Cons d ds)
  from Cons.prems have inU: "Path d \<in> U" and rest: "Path ` set ds \<subseteq> U" by auto
  show ?case
  proof (cases "map_bool seen (Path d)")
    case True
    with Cons.IH [OF rest Cons.prems(2), of w] show ?thesis by simp
  next
    case False
    have "Path (Dir (ChangeDir cfg d)) = Path d" by (simp add: ChangeDir_def)
    with A [of "ChangeDir cfg d" seen w] inU False Cons.prems(2)
    obtain r seen1 w1 where run: "pull n E (ChangeDir cfg d) seen w = Some (r, seen1, w1)"
      and sub: "unseen U seen1 \<subseteq> unseen U seen"
      by auto
    show ?thesis
    proof (cases "r = Exit 0")
      case True
      from sub have "card (unseen U seen1) \<le> card (unseen U seen)"
        by (simp add: card_mono unseen_finite [OF fin])
      with Cons.prems(2) have "card (unseen U seen1) \<le> n" by simp
      from Cons.IH [OF rest this, of w1]
      obtain r' seen' w' where "pull_subdirs n E cfg ds seen1 w1 = Some (r', seen', w')"
        and "unseen U seen' \<subseteq> unseen U seen1" by blast
      with False run True sub show ?thesis by auto
    next
      case ne: False
      with False run sub show ?thesis by simp
    qed
  qed
qed

lemma pull_returns_aux:
  assumes fin: "finite U"
    and subs: "\<And>w d ds. Subdirs E w d = Inr ds \<Longrightarrow> Path ` set ds \<subseteq> U"
  shows "Path (Dir cfg) \<in> U \<Longrightarrow> \<not> map_bool seen (Path (Dir cfg)) \<Longrightarrow> card (unseen U seen) \<le> n \<Longrightarrow>
     \<exists>r seen' w'. pull n E cfg seen w = Some (r, seen', w') \<and> unseen U seen' \<subseteq> unseen U seen"
proof (induction n arbitrary: cfg seen w)
  case 0
  from 0(1,2) have "Path (Dir cfg) \<in> unseen U seen" by (simp add: unseen_def)
  with unseen_finite [OF fin, of seen] have "card (unseen U seen) \<noteq> 0" by auto
  with 0(3) show ?case by simp
next
  case (Suc n)
  let ?p = "Path (Dir cfg)"
  let ?w = "entered cfg w"
  show ?case
  proof (cases "IsLeaf E ?w (Dir cfg)")
    case True
    then show ?thesis by (simp add: pull_at_leaf del: pull.simps)
  next
    case False
    show ?thesis
    proof (cases "Subdirs E ?w (Dir cfg)")
      case (Inl e)
      with False show ?thesis by (simp add: entered_def Let_def)
    next
      case (Inr ds)
      note at = pull_at_node [OF False Inr, of n seen]
      show ?thesis
      proof (cases "discover E cfg ds ?w")
        case (Pair r w1)
        show ?thesis
        proof (cases r)
          case (Some a)
          with Pair show ?thesis unfolding at by simp
        next
          case None
          from unseen_card_less [OF fin Suc.prems(1,2)] Suc.prems(3)
          have le: "card (unseen U (seen(?p \<mapsto> True))) \<le> n" by simp
          from pull_subdirs_returns [OF fin Suc.IH subs [OF Inr] le, where cfg = cfg and w = w1]
          obtain r' seen' w' where
            "pull_subdirs n E cfg ds (seen(?p \<mapsto> True)) w1 = Some (r', seen', w')"
            and "unseen U seen' \<subseteq> unseen U (seen(?p \<mapsto> True))"
            by blast
          with None Pair show ?thesis
            unfolding at by (auto simp: unseen_mark)
        qed
      qed
    qed
  qed
qed

lemma pull_terminates:
  assumes fin: "finite U"
    and bound: "\<forall>w d ds. Subdirs E w d = Inr ds \<longrightarrow> Path ` set ds \<subseteq> U"
    and fuel: "card U \<le> n"
  shows "\<exists>r seen' w'. pull (Suc n) E cfg seen w = Some (r, seen', w')"
proof (cases "IsLeaf E (entered cfg w) (Dir cfg)")
  case True
  then show ?thesis by (simp add: pull_at_leaf del: pull.simps)
next
  case False
  show ?thesis
  proof (cases "Subdirs E (entered cfg w) (Dir cfg)")
    case (Inl e)
    with False show ?thesis by (simp add: entered_def Let_def)
  next
    case (Inr ds)
    note at = pull_at_node [OF False Inr, of n seen]
    show ?thesis
    proof (cases "discover E cfg ds (entered cfg w)")
      case (Pair r w1)
      show ?thesis
      proof (cases r)
        case (Some a)
        with Pair show ?thesis unfolding at by simp
      next
        case None
        let ?seen = "seen(Path (Dir cfg) \<mapsto> True)"
        have "unseen U ?seen \<subseteq> U" by (auto simp: unseen_def)
        then have "card (unseen U ?seen) \<le> card U" by (simp add: card_mono fin)
        with fuel have le: "card (unseen U ?seen) \<le> n" by simp
        from bound have subs: "\<And>w d ds. Subdirs E w d = Inr ds \<Longrightarrow> Path ` set ds \<subseteq> U"
          by blast
        have A: "\<And>cfg seen w. Path (Dir cfg) \<in> U \<Longrightarrow> \<not> map_bool seen (Path (Dir cfg)) \<Longrightarrow>
              card (unseen U seen) \<le> n \<Longrightarrow>
              \<exists>r seen' w'. pull n E cfg seen w = Some (r, seen', w') \<and> unseen U seen' \<subseteq> unseen U seen"
          by (rule pull_returns_aux [OF fin subs])
        from pull_subdirs_returns [OF fin A subs [OF Inr] le, where cfg = cfg and w = w1]
        show ?thesis
          using None Pair unfolding at by auto
      qed
    qed
  qed
qed

subsection \<open>Paths\<close>












subsection \<open>A leaf directory in line with its schema\<close>


lemma clean_fuel: "clean E n cfg F \<Longrightarrow> n \<le> m \<Longrightarrow> clean E m cfg F"
  unfolding clean_def by (meson pull_fuel_le)










subsection \<open>The discovery, first run\<close>







subsection \<open>The second run at a directory that is not a leaf\<close>



subsection \<open>The first run\<close>



subsection \<open>The collaborators of \<open>in_step\<close>\<close>


lemma in_step_fixed_configuration: "fixed_configuration (in_step\<lparr>SQLFile_Write_fault := f\<rparr>)"
  by (simp add: fixed_configuration_def in_step_def calm_def)

lemma in_step_database_unchanged: "database_unchanged (in_step\<lparr>SQLFile_Write_fault := f\<rparr>)"
  by (simp add: database_unchanged_def in_step_def calm_def)

lemma in_step_listing: "listing (in_step\<lparr>SQLFile_Write_fault := f\<rparr>) two_schema_kids"
  by (auto simp: listing_def in_step_def calm_def two_schema_kids_def child_def)

lemma in_step_schema_directories: "schema_directories (in_step\<lparr>SQLFile_Write_fault := f\<rparr>) two_schema_kids"
  by (auto simp: schema_directories_def in_step_def calm_def two_schema_kids_def ChangeDir_def index0_def
      split: if_splits)

lemma leaf_diff_in_step:
  "leaf_diff (in_step\<lparr>SQLFile_Write_fault := f\<rparr>) cfg t to w = marked_diff (stale_marks (fs w) (Path (Dir cfg)))"
  by (simp add: leaf_diff_def in_step_def calm_def staged_def staged_dir_def emit_def)

lemma stale_marks_same: "same_within p F F' \<Longrightarrow> stale_marks F p = stale_marks F' p"
  by (simp add: same_within_def stale_marks_def within_def)

lemma in_step_applied:
  "apply_diffs (in_step\<lparr>SQLFile_Write_fault := f\<rparr>) cfg t to
       (marked_diff (stale_marks (fs w) (Path (Dir cfg)))) w = (None, w1) \<Longrightarrow>
   stale_marks (fs w1) (Path (Dir cfg)) = []"
  by (auto simp: stale_marks_def marked_diff_def in_step_def calm_def orders_def legacy_def
      SQLFile_Write_def SQLFile_Delete_def SQLFile_Path_def emit_def Let_def
      split: option.splits if_splits)

lemma in_step_diff_engine_contract: "diff_engine_contract (in_step\<lparr>SQLFile_Write_fault := f\<rparr>)"
  unfolding diff_engine_contract_def
proof (intro allI impI)
  let ?E = "in_step\<lparr>SQLFile_Write_fault := f\<rparr>"
  fix cfg t name to and w w1 w2 :: world
  assume a: "IsLeaf ?E w (Dir cfg) \<and> index0 (Targets ?E w cfg) = Inr t
        \<and> index0 (SchemaNames t) = Inr name \<and> Instance_Schema ?E w (Instance t) name = Some to
        \<and> apply_diffs ?E cfg t to (leaf_diff ?E cfg t to w) (emit Call_NewSchemaDiff (staged cfg w)) = (None, w1)"
    and same: "same_within (Path (Dir cfg)) (fs w2) (fs w1)"
  have f: "fs (emit Call_NewSchemaDiff (staged cfg w)) = fs w"
    by (simp add: emit_def staged_def)
  from a have "apply_diffs ?E cfg t to
      (marked_diff (stale_marks (fs (emit Call_NewSchemaDiff (staged cfg w))) (Path (Dir cfg))))
      (emit Call_NewSchemaDiff (staged cfg w)) = (None, w1)"
    by (simp add: f leaf_diff_in_step)
  from in_step_applied [OF this] have "stale_marks (fs w1) (Path (Dir cfg)) = []" .
  with stale_marks_same [OF same] show "leaf_diff ?E cfg t to w2 = []"
    by (simp add: leaf_diff_in_step marked_diff_def)
qed

lemma in_step_populate_contract: "populate_contract (in_step\<lparr>SQLFile_Write_fault := f\<rparr>) two_schema_kids"
  unfolding populate_contract_def
proof (intro allI impI)
  let ?E = "in_step\<lparr>SQLFile_Write_fault := f\<rparr>"
  fix w :: world and cfg t s F'
  assume a: "IsInstanceWithLeafSubdirs ?E w (Dir cfg) \<and> index0 (Targets ?E w cfg) = Inr t
        \<and> s \<in> set (Schemas ?E w (Instance t))
        \<and> PopulateSchemaDir ?E w s (Instance t) (Dir cfg) True = (0, F')"
  let ?K = "schema_dir (Dir cfg) s"
  from a have root: "Path (Dir cfg) = ''/r''"
    by (simp add: in_step_def calm_def)
  from a have name: "SchemaName s = ''shop'' \<or> SchemaName s = ''archive''"
    by (auto simp: in_step_def calm_def)
  have K: "Path ?K = ''/r/'' @ SchemaName s"
    by (simp add: schema_dir_def root)
  from a root name have F': "F' = \<lparr>files = (files (fs w))(Path ?K @ ''/orders.sql'' \<mapsto> ''CREATE TABLE orders'',
                                               Path ?K @ ''/legacy.sql'' := None),
                        dirs = insert (Path ?K) (dirs (fs w))\<rparr>"
    by (auto simp: in_step_def calm_def schema_dir_def)
  have kid: "?K \<in> set (two_schema_kids (Dir cfg))"
    using name by (auto simp: two_schema_kids_def root schema_dir_def)
  have out: "same_outside (Path ?K) (fs w) F'"
    by (auto simp: same_outside_def F' within_def)
  have ex: "Path ?K \<in> dirs F'" by (simp add: F')
  have leaf: "IsLeaf ?E w ?K"
    using name by (auto simp: in_step_def calm_def K)
  have decl: "\<exists>skf. Dir_SkeemaFile ?E w ?K cfg = Inr skf \<and> Values skf ''schema'' = Some (SchemaName s)"
    using name by (auto simp: in_step_def calm_def K)
  have sync: "leaf_diff ?E (ChangeDir cfg ?K) t' to w2 = []"
    if "same_within (Path ?K) (fs w2) F'" for t' to w2
  proof -
    have "stale_marks F' (Path ?K) = []"
      by (simp add: stale_marks_def F')
    with stale_marks_same [OF that] show ?thesis
      by (simp add: leaf_diff_in_step marked_diff_def ChangeDir_def)
  qed
  have lined: "\<exists>t' name to.
              index0 (Targets ?E w (ChangeDir cfg ?K)) = Inr t'
              \<and> index0 (SchemaNames t') = Inr name
              \<and> Instance_Schema ?E w (Instance t') name = Some to
              \<and> (\<forall>w2. same_within (Path ?K) (fs w2) F' \<longrightarrow>
                    leaf_diff ?E (ChangeDir cfg ?K) t' to w2 = [])"
    using sync by (simp add: in_step_def calm_def index0_def)
  from kid out ex leaf decl lined
  show "?K \<in> set (two_schema_kids (Dir cfg))
        \<and> same_outside (Path ?K) (fs w) F'
        \<and> Path ?K \<in> dirs F'
        \<and> IsLeaf ?E w ?K
        \<and> (\<exists>skf. Dir_SkeemaFile ?E w ?K cfg = Inr skf
              \<and> Values skf ''schema'' = Some (SchemaName s))
        \<and> (\<exists>t' name to.
              index0 (Targets ?E w (ChangeDir cfg ?K)) = Inr t'
              \<and> index0 (SchemaNames t') = Inr name
              \<and> Instance_Schema ?E w (Instance t') name = Some to
              \<and> (\<forall>w2. same_within (Path ?K) (fs w2) F' \<longrightarrow>
                    leaf_diff ?E (ChangeDir cfg ?K) t' to w2 = []))"
    by blast
qed


lemma disk_full_once_contracts:
  "fixed_configuration disk_full_once \<and> database_unchanged disk_full_once
   \<and> listing disk_full_once two_schema_kids \<and> schema_directories disk_full_once two_schema_kids
   \<and> diff_engine_contract disk_full_once \<and> populate_contract disk_full_once two_schema_kids"
  unfolding disk_full_once_def
  using in_step_fixed_configuration in_step_database_unchanged in_step_listing
    in_step_schema_directories in_step_diff_engine_contract in_step_populate_contract
  by blast


section \<open>The statements of the specification\<close>

subsection \<open>The temporary schema when a diff entry fails\<close>

text \<open>
  When the loop over the diff ends normally and the release succeeds, the temporary schema
  is gone when pull returns; when an entry of the diff fails, pull returns at once, the
  temporary schema is still there, and no release was called.
\<close>

lemma pull_success_releases_temporary_schema:
  assumes leaf: "IsLeaf E (entered cfg w0) (Dir cfg)"
    and lb: "leaf_begin E cfg (entered cfg w0) = (Inr (t, to, diff), w)"
    and ok: "apply_diffs E cfg t to diff w = (None, w1)"
    and rel: "DropTemporarySchema_fault E w1 cfg = None"
  shows "\<exists>w'. pull (Suc n) E cfg seen w0 = Some (Exit 0, seen, w') \<and> \<not> temp_schema w'
     \<and> Call_DropTemporarySchema (Path (Dir cfg)) \<in> set (trace w')"
  unfolding pull_leaf_loop [OF leaf lb]
  using ok rel by (simp add: leaf_end_def DropTemporarySchema_def Let_def emit_def)

lemma pull_failure_keeps_temporary_schema:
  assumes leaf: "IsLeaf E (entered cfg w0) (Dir cfg)"
    and lb: "leaf_begin E cfg (entered cfg w0) = (Inr (t, to, diff), w)"
    and fail: "fst (apply_diffs E cfg t to diff w) = Some r"
  shows "\<exists>w'. pull (Suc n) E cfg seen w0 = Some (r, seen, w') \<and> temp_schema w'
     \<and> Call_DropTemporarySchema (Path (Dir cfg)) \<notin> set (drop (length (trace w0)) (trace w'))"
proof -
  define w' where "w' = snd (apply_diffs E cfg t to diff w)"
  have loop: "apply_diffs E cfg t to diff w = (Some r, w')"
    using fail by (simp add: w'_def prod_eq_iff)
  have run: "pull (Suc n) E cfg seen w0 = Some (r, seen, w')"
    unfolding pull_leaf_loop [OF leaf lb] by (simp add: loop)
  from leaf_begin_Inr [OF lb] have ts: "temp_schema w"
    and tr: "trace w = trace w0 @ [Visit (Path (Dir cfg)), Printed (Updating (Path (Dir cfg))),
        Call_PopulateTemporarySchema (Path (Dir cfg)), Call_NewSchemaDiff]"
    by (simp_all add: entered_def emit_def)
  have "temp_schema w'" using ts by (simp only: w'_def apply_diffs_rest)
  moreover from apply_diffs_no_release [of E cfg t to diff w "Path (Dir cfg)"]
  obtain evs where "trace w' = trace w @ evs" "Call_DropTemporarySchema (Path (Dir cfg)) \<notin> set evs"
    unfolding w'_def by blast
  then have "Call_DropTemporarySchema (Path (Dir cfg)) \<notin> set (drop (length (trace w0)) (trace w'))"
    by (simp add: tr)
  ultimately show ?thesis using run by blast
qed

text \<open>
  C1. The claim is that the temporary schema is released on every way out of the leaf
  branch.  pull run on the leaf directory of \<open>write_fails\<close>: the temporary schema is
  populated, the one file of the diff cannot be written, pull returns 1, and the
  temporary schema still exists; the trace ends with the message about the file and
  holds no call of \<^verbatim>\<open>DropTemporarySchema\<close>.
\<close>
theorem pull_keeps_temporary_schema_when_write_fails:
  "map_option (\<lambda>(r, seen, w). (r, temp_schema w, trace w))
     (pull (Suc 0) write_fails shop_cfg Map.empty world0) =
   Some (Exit 1, True,
     [Visit ''/r/shop'', Printed (Updating ''/r/shop''),
      Call_PopulateTemporarySchema ''/r/shop'', Call_NewSchemaDiff,
      Call_ShowCreateTable ''orders'', Call_SQLFile_Write ''/r/shop/orders.sql'',
      Printed (UnableToWrite ''/r/shop/orders.sql'' ''permission denied'')])"
  by (simp add: write_fails_def tree_defs step_defs)

subsection \<open>Directories reached twice\<close>

text \<open>
  C2. The claim is that pull ends on every tree and enters no directory twice.  pull run
  on the root of \<open>twice_listed\<close>, where two entries of the root resolve to the same leaf
  directory: pull enters that directory twice and returns 0; the map marks only the
  directories that are not leaves, so the leaf is not in it afterwards.
\<close>
theorem pull_visits_leaf_twice:
  "map_option (\<lambda>(r, seen, w). (r, filter (\<lambda>e. e = Visit ''/r/shop'') (trace w), map_bool seen ''/r/shop''))
     (pull (Suc (Suc 0)) twice_listed root_cfg Map.empty world0) =
   Some (Exit 0, [Visit ''/r/shop'', Visit ''/r/shop''], False)"
  by (simp add: twice_listed_def tree_defs step_defs node_defs)

text \<open>
  A link to an ancestor is skipped: the ancestor is marked before the loop starts.
\<close>
lemma pull_skips_link_to_ancestor:
  "map_option (\<lambda>(r, seen, w). (r, filter (\<lambda>e. \<exists>p. e = Visit p) (trace w)))
     (pull (Suc (Suc 0)) link_to_root root_cfg Map.empty world0) =
   Some (Exit 0, [Visit ''/r'', Visit ''/r/shop''])"
  by (simp add: link_to_root_def tree_defs step_defs node_defs)

subsection \<open>A rename in the diff\<close>

text \<open>
  C3. When the diff of a leaf directory holds a Rename entry, the call of pull on the
  leaf and every call that encloses it end with the same result, whose exit status is not
  0.  When the entries before the first Rename entry are applied without failure, that
  result is the panic of line 99, in the world those entries left: the Rename entry
  itself writes and deletes nothing.  When no other entry of the diff is about the
  renamed table, the file of that table is at the end what it was before.
\<close>
theorem pull_rename_is_fatal:
  assumes leaf: "IsLeaf E (entered cfg w0) (Dir cfg)"
    and lb: "leaf_begin E cfg (entered cfg w0) = (Inr (t, to, diff), w)"
    and rn: "RenameTable tb \<in> set diff"
    and outer: "(calls E)\<^sup>*\<^sup>* (m, cfg0, seen0, w00) (Suc n, cfg, seen, w0)"
  shows "\<exists>r w'. pull m E cfg0 seen0 w00 = Some (r, seen, w')
      \<and> exit_code r \<noteq> 0
      \<and> (\<forall>pre post. diff = pre @ RenameTable tb # post \<and> fst (apply_diffs E cfg t to pre w) = None \<longrightarrow>
            r = Panic ''Table renames not yet supported!'' \<and> w' = snd (apply_diffs E cfg t to pre w))
      \<and> ((\<forall>td \<in> set diff. touched cfg td \<noteq> Some (table_file cfg tb)) \<longrightarrow>
            files (fs w') (table_file cfg tb) = files (fs w0) (table_file cfg tb))"
proof -
  from rename_stops_loop [OF rn, of E cfg t to w]
  obtain r where r: "fst (apply_diffs E cfg t to diff w) = Some r" by blast
  define w' where "w' = snd (apply_diffs E cfg t to diff w)"
  have loop: "apply_diffs E cfg t to diff w = (Some r, w')"
    using r by (simp add: w'_def prod_eq_iff)
  from apply_diffs_nonzero [OF r] have code: "exit_code r \<noteq> 0" by auto
  then have ne: "r \<noteq> Exit 0" by auto
  have "pull (Suc n) E cfg seen w0 = Some (r, seen, w')"
    unfolding pull_leaf_loop [OF leaf lb] by (simp add: loop)
  with calls_rtrancl_result [OF outer _ ne, of seen w']
  have run: "pull m E cfg0 seen0 w00 = Some (r, seen, w')" by simp
  have first: "r = Panic ''Table renames not yet supported!'' \<and> w' = snd (apply_diffs E cfg t to pre w)"
    if eq: "diff = pre @ RenameTable tb # post" and none: "fst (apply_diffs E cfg t to pre w) = None"
    for pre post
  proof -
    obtain w1 where w1: "apply_diffs E cfg t to pre w = (None, w1)"
      using none by (cases "apply_diffs E cfg t to pre w") simp
    have "apply_diffs E cfg t to diff w = (Some (Panic ''Table renames not yet supported!''), w1)"
      unfolding eq by (simp add: apply_diffs_append w1)
    with loop w1 show ?thesis by simp
  qed
  have frame: "files (fs w') (table_file cfg tb) = files (fs w0) (table_file cfg tb)"
    if "\<forall>td \<in> set diff. touched cfg td \<noteq> Some (table_file cfg tb)"
  proof -
    from leaf_begin_Inr [OF lb] have "fs w = fs w0" by (simp add: entered_def emit_fs)
    with apply_diffs_files [OF that, of E t to w] show ?thesis by (simp add: w'_def)
  qed
  from run code first frame show ?thesis by blast
qed

theorem pull_rename_is_fatal_witness:
  "IsLeaf orders_renamed (entered shop_cfg (entered root_cfg world0)) (Dir shop_cfg)
   \<and> fst (leaf_begin orders_renamed shop_cfg (entered shop_cfg (entered root_cfg world0))) =
         Inr (shop_target, \<lparr>SchemaName = ''shop''\<rparr>, [DropTable legacy] @ RenameTable orders # [])
   \<and> calls orders_renamed (Suc (Suc 0), root_cfg, Map.empty, world0)
        (Suc 0, shop_cfg, [''/r'' \<mapsto> True], entered root_cfg world0)
   \<and> (\<exists>w'. pull (Suc (Suc 0)) orders_renamed root_cfg Map.empty world0 =
              Some (Panic ''Table renames not yet supported!'', [''/r'' \<mapsto> True], w')
         \<and> files (fs w') (table_file shop_cfg orders) = None
         \<and> temp_schema w')"
proof -
  let ?W = "entered root_cfg world0"
  let ?w = "snd (leaf_begin orders_renamed shop_cfg (entered shop_cfg ?W))"
  let ?to = "\<lparr>SchemaName = ''shop''\<rparr>"
  have leaf: "IsLeaf orders_renamed (entered shop_cfg ?W) (Dir shop_cfg)"
    by (simp add: orders_renamed_def calm_def shop_cfg_def)
  have diff: "fst (leaf_begin orders_renamed shop_cfg (entered shop_cfg ?W)) =
         Inr (shop_target, ?to, [DropTable legacy] @ RenameTable orders # [])"
    by (simp add: orders_renamed_def tree_defs step_defs)
  then have lb: "leaf_begin orders_renamed shop_cfg (entered shop_cfg ?W) =
         (Inr (shop_target, ?to, [DropTable legacy] @ RenameTable orders # []), ?w)"
    by (simp add: prod_eq_iff)
  have rn: "RenameTable orders \<in> set ([DropTable legacy] @ RenameTable orders # [])"
    by simp
  have pre: "fst (apply_diffs orders_renamed shop_cfg shop_target ?to [DropTable legacy] ?w) = None"
    by (simp add: orders_renamed_def tree_defs step_defs)
  have others: "\<forall>td \<in> set ([DropTable legacy] @ RenameTable orders # []).
      touched shop_cfg td \<noteq> Some (table_file shop_cfg orders)"
    by (simp add: table_file_def legacy_def orders_def)
  have ts: "temp_schema (snd (apply_diffs orders_renamed shop_cfg shop_target ?to [DropTable legacy] ?w))"
  proof -
    from leaf_begin_Inr [OF lb] have "temp_schema ?w" by simp
    then show ?thesis by (simp only: apply_diffs_rest)
  qed
  have cd: "ChangeDir root_cfg \<lparr>Path = ''/r/shop''\<rparr> = shop_cfg"
    by (simp add: ChangeDir_def root_cfg_def shop_cfg_def)
  have c: "calls orders_renamed (Suc (Suc 0), root_cfg, Map.empty, world0)
        (Suc 0, shop_cfg, [''/r'' \<mapsto> True], ?W)"
  proof -
    have "calls orders_renamed (Suc (Suc 0), root_cfg, Map.empty, world0)
        (Suc 0, ChangeDir root_cfg \<lparr>Path = ''/r/shop''\<rparr>, Map.empty(Path (Dir root_cfg) \<mapsto> True), ?W)"
    proof (rule calls.intros [where pre = "[]" and post = "[]"])
      show "\<not> IsLeaf orders_renamed ?W (Dir root_cfg)"
        by (simp add: orders_renamed_def calm_def root_cfg_def)
      show "Subdirs orders_renamed ?W (Dir root_cfg) = Inr ([] @ \<lparr>Path = ''/r/shop''\<rparr> # [])"
        by (simp add: orders_renamed_def calm_def root_cfg_def)
      show "discover orders_renamed root_cfg ([] @ \<lparr>Path = ''/r/shop''\<rparr> # []) ?W = (None, ?W)"
        by (simp add: orders_renamed_def tree_defs node_defs index0_def)
      show "pull_subdirs (Suc 0) orders_renamed root_cfg [] (Map.empty(Path (Dir root_cfg) \<mapsto> True)) ?W =
          Some (Exit 0, Map.empty(Path (Dir root_cfg) \<mapsto> True), ?W)"
        by simp
      show "\<not> map_bool (Map.empty(Path (Dir root_cfg) \<mapsto> True)) (Path \<lparr>Path = ''/r/shop''\<rparr>)"
        by (simp add: map_bool_def root_cfg_def)
    qed
    then show ?thesis by (simp add: root_cfg_def cd [unfolded root_cfg_def])
  qed
  then have outer: "(calls orders_renamed)\<^sup>*\<^sup>* (Suc (Suc 0), root_cfg, Map.empty, world0)
      (Suc 0, shop_cfg, [''/r'' \<mapsto> True], ?W)"
    by (rule r_into_rtranclp)
  from pull_rename_is_fatal [OF leaf lb rn outer]
  obtain r w' where run: "pull (Suc (Suc 0)) orders_renamed root_cfg Map.empty world0 =
        Some (r, [''/r'' \<mapsto> True], w')"
    and first: "\<And>pre post. [DropTable legacy] @ RenameTable orders # [] = pre @ RenameTable orders # post
          \<Longrightarrow> fst (apply_diffs orders_renamed shop_cfg shop_target ?to pre ?w) = None
          \<Longrightarrow> r = Panic ''Table renames not yet supported!''
              \<and> w' = snd (apply_diffs orders_renamed shop_cfg shop_target ?to pre ?w)"
    and frame: "(\<forall>td \<in> set ([DropTable legacy] @ RenameTable orders # []).
          touched shop_cfg td \<noteq> Some (table_file shop_cfg orders)) \<Longrightarrow>
        files (fs w') (table_file shop_cfg orders) =
        files (fs (entered root_cfg world0)) (table_file shop_cfg orders)"
    by blast
  from first [OF refl pre] have r: "r = Panic ''Table renames not yet supported!''"
    and w': "w' = snd (apply_diffs orders_renamed shop_cfg shop_target ?to [DropTable legacy] ?w)"
    by simp_all
  from frame [OF others] have "files (fs w') (table_file shop_cfg orders) = None"
    by (simp add: table_file_def world0_def shop_cfg_def orders_def entered_def emit_def)
  with leaf diff c run r w' ts show ?thesis by blast
qed

subsection \<open>A leaf whose schema is gone\<close>

text \<open>
  C4. At a leaf directory whose first target's first schema name no longer names a schema
  of the live instance, pull calls the deletion of the directory and nothing else: it
  returns 0 when the deletion succeeds (then nothing is left of the directory or below
  it, and every other path is as before) and 1 when it fails.  The trace shows every
  call made: the temporary schema is not populated and no diff is computed.
\<close>
theorem pull_deletes_directory_of_dropped_schema:
  assumes leaf: "IsLeaf E (entered cfg w0) (Dir cfg)"
    and target: "index0 (Targets E (started cfg w0) cfg) = Inr t"
    and name: "index0 (SchemaNames t) = Inr name"
    and gone: "Instance_Schema E (started cfg w0) (Instance t) name = None"
  shows "\<exists>r w'. pull (Suc n) E cfg seen w0 = Some (r, seen, w')
      \<and> r = (case Dir_Delete_fault E (started cfg w0) (Dir cfg) of None \<Rightarrow> Exit 0 | Some e \<Rightarrow> Exit 1)
      \<and> trace w' = trace w0 @
           [Visit (Path (Dir cfg)), Printed (Updating (Path (Dir cfg))), Call_Dir_Delete (Path (Dir cfg)),
            Printed (case Dir_Delete_fault E (started cfg w0) (Dir cfg) of
                       None \<Rightarrow> DeletedDirectory (Dir cfg)
                     | Some e \<Rightarrow> UnableToDeleteDirectory (Dir cfg) e)]
      \<and> temp_schema w' = temp_schema w0
      \<and> (Dir_Delete_fault E (started cfg w0) (Dir cfg) = None \<longrightarrow>
           (\<forall>q. files (fs w') q = (if within (Path (Dir cfg)) q then None else files (fs w0) q))
           \<and> dirs (fs w') = {q \<in> dirs (fs w0). \<not> within (Path (Dir cfg)) q})"
proof -
  let ?w = "started cfg w0"
  have lb: "leaf_begin E cfg (entered cfg w0) =
     (case Dir_Delete E (Dir cfg) ?w of
        (Some e, w') \<Rightarrow> (Inl (Exit 1), emit (Printed (UnableToDeleteDirectory (Dir cfg) e)) w')
      | (None, w') \<Rightarrow> (Inl (Exit 0), emit (Printed (DeletedDirectory (Dir cfg))) w'))"
    using target name gone by (simp add: leaf_begin_def started_def Let_def)
  note run = pull_at_leaf [OF leaf, of n seen]
  show ?thesis
  proof (cases "Dir_Delete_fault E ?w (Dir cfg)")
    case None
    then have "pull_leaf E cfg (entered cfg w0) =
        (Exit 0, emit (Printed (DeletedDirectory (Dir cfg)))
           ((emit (Call_Dir_Delete (Path (Dir cfg))) ?w)
              \<lparr>fs := \<lparr>files = (\<lambda>p. if within (Path (Dir cfg)) p then None else files (fs ?w) p),
                       dirs = {p \<in> dirs (fs ?w). \<not> within (Path (Dir cfg)) p}\<rparr>\<rparr>))"
      by (simp add: pull_leaf_def lb Dir_Delete_def Let_def)
    then show ?thesis
      unfolding run using None by (simp add: emit_def started_def entered_def)
  next
    case (Some e)
    then have "pull_leaf E cfg (entered cfg w0) =
        (Exit 1, emit (Printed (UnableToDeleteDirectory (Dir cfg) e))
           (emit (Call_Dir_Delete (Path (Dir cfg))) ?w))"
      by (simp add: pull_leaf_def lb Dir_Delete_def Let_def)
    then show ?thesis
      unfolding run using Some by (simp add: emit_def started_def entered_def)
  qed
qed

theorem pull_deletes_directory_of_dropped_schema_witness:
  "IsLeaf schema_gone (entered shop_cfg world0) (Dir shop_cfg)
   \<and> index0 (Targets schema_gone (started shop_cfg world0) shop_cfg) = Inr shop_target
   \<and> index0 (SchemaNames shop_target) = Inr ''shop''
   \<and> Instance_Schema schema_gone (started shop_cfg world0) (Instance shop_target) ''shop'' = None
   \<and> (\<exists>w'. pull (Suc 0) schema_gone shop_cfg Map.empty world0 = Some (Exit 0, Map.empty, w')
        \<and> trace w' = [Visit ''/r/shop'', Printed (Updating ''/r/shop''), Call_Dir_Delete ''/r/shop'',
                       Printed (DeletedDirectory \<lparr>Path = ''/r/shop''\<rparr>)]
        \<and> files (fs w') ''/r/shop/legacy.sql'' = None
        \<and> ''/r/shop'' \<notin> dirs (fs w') \<and> ''/r'' \<in> dirs (fs w'))"
proof -
  have leaf: "IsLeaf schema_gone (entered shop_cfg world0) (Dir shop_cfg)"
    by (simp add: schema_gone_def calm_def shop_cfg_def)
  have target: "index0 (Targets schema_gone (started shop_cfg world0) shop_cfg) = Inr shop_target"
    by (simp add: schema_gone_def calm_def index0_def)
  have name: "index0 (SchemaNames shop_target) = Inr ''shop''"
    by (simp add: shop_target_def index0_def)
  have gone: "Instance_Schema schema_gone (started shop_cfg world0) (Instance shop_target) ''shop'' = None"
    by (simp add: schema_gone_def calm_def)
  have nofault: "Dir_Delete_fault schema_gone (started shop_cfg world0) (Dir shop_cfg) = None"
    by (simp add: schema_gone_def calm_def)
  from pull_deletes_directory_of_dropped_schema [OF leaf target name gone, of 0 Map.empty]
  obtain w' where run: "pull (Suc 0) schema_gone shop_cfg Map.empty world0 = Some (Exit 0, Map.empty, w')"
    and tr: "trace w' = trace world0 @ [Visit (Path (Dir shop_cfg)), Printed (Updating (Path (Dir shop_cfg))),
        Call_Dir_Delete (Path (Dir shop_cfg)), Printed (DeletedDirectory (Dir shop_cfg))]"
    and fl: "\<And>q. files (fs w') q = (if within (Path (Dir shop_cfg)) q then None else files (fs world0) q)"
    and ds: "dirs (fs w') = {q \<in> dirs (fs world0). \<not> within (Path (Dir shop_cfg)) q}"
    unfolding nofault by auto
  have "trace w' = [Visit ''/r/shop'', Printed (Updating ''/r/shop''), Call_Dir_Delete ''/r/shop'',
                       Printed (DeletedDirectory \<lparr>Path = ''/r/shop''\<rparr>)]"
    using tr by (simp add: shop_cfg_def world0_def)
  moreover have "files (fs w') ''/r/shop/legacy.sql'' = None"
    by (simp add: fl shop_cfg_def within_def)
  moreover have "''/r/shop'' \<notin> dirs (fs w') \<and> ''/r'' \<in> dirs (fs w')"
    by (simp add: ds shop_cfg_def within_def world0_def)
  ultimately show ?thesis
    using leaf target name gone run by blast
qed

subsection \<open>A table that is new on the instance\<close>



subsection \<open>One diff entry, one file\<close>

text \<open>
  C6. Applying one diff entry of kind Create, Drop or Alter leaves every file other than
  \<^verbatim>\<open><table>.sql\<close> of the entry's table in the directory as it was (whether the entry
  succeeds or fails), and creates or removes no directory.
\<close>
theorem apply_diff_touches_one_file:
  assumes "td = CreateTable tb \<or> td = DropTable tb \<or> td = AlterTable tb"
    and "p \<noteq> table_file cfg tb"
  shows "files (fs (snd (apply_diff E cfg t to td w))) p = files (fs w) p
     \<and> dirs (fs (snd (apply_diff E cfg t to td w))) = dirs (fs w)"
proof -
  from assms have "touched cfg td \<noteq> Some p" by auto
  then show ?thesis
    by (simp add: apply_diff_files apply_diff_rest)
qed

theorem apply_diff_touches_one_file_witness:
  "(DropTable legacy = CreateTable legacy \<or> DropTable legacy = DropTable legacy
      \<or> DropTable legacy = AlterTable legacy)
   \<and> ''/r/shop/.skeema'' \<noteq> table_file shop_cfg legacy
   \<and> files (fs (snd (apply_diff calm shop_cfg shop_target \<lparr>SchemaName = ''shop''\<rparr> (DropTable legacy) world0)))
        ''/r/shop/.skeema'' = Some ''schema=shop''
   \<and> files (fs (snd (apply_diff calm shop_cfg shop_target \<lparr>SchemaName = ''shop''\<rparr> (DropTable legacy) world0)))
        ''/r/shop/legacy.sql'' = None
   \<and> dirs (fs (snd (apply_diff calm shop_cfg shop_target \<lparr>SchemaName = ''shop''\<rparr> (DropTable legacy) world0)))
        = {''/r'', ''/r/shop''}"
proof -
  have kind: "DropTable legacy = CreateTable legacy \<or> DropTable legacy = DropTable legacy
      \<or> DropTable legacy = AlterTable legacy"
    by simp
  have other: "''/r/shop/.skeema'' \<noteq> table_file shop_cfg legacy"
    by (simp add: table_file_def shop_cfg_def legacy_def)
  have gone: "files (fs (snd (apply_diff calm shop_cfg shop_target \<lparr>SchemaName = ''shop''\<rparr> (DropTable legacy) world0)))
        ''/r/shop/legacy.sql'' = None"
    by (simp add: tree_defs step_defs)
  from apply_diff_touches_one_file [OF kind other, of calm shop_target "\<lparr>SchemaName = ''shop''\<rparr>" world0]
  show ?thesis
    using kind other gone by (simp add: world0_def)
qed

subsection \<open>The first failure at a directory that is not a leaf\<close>

text \<open>
  C7. At a directory that is not a leaf, (1) when the call of \<^verbatim>\<open>PopulateSchemaDir\<close> for a
  schema without a directory is the first of the discovery to return a code other than 0,
  pull returns that code at once: the world it leaves is the one the earlier calls and
  the failing call made (nothing they created is undone), and neither the remaining
  schemas nor any sub-directory is looked at; (2) when a recursive call that the loop
  over the sub-directories reaches ends with anything but 0, pull ends with the same
  result, in the world and with the map that call left: no later sub-directory is visited.
\<close>
theorem pull_stops_at_first_failure:
  assumes node: "\<not> IsLeaf E (entered cfg w0) (Dir cfg)"
    and subs: "Subdirs E (entered cfg w0) (Dir cfg) = Inr subdirs"
  shows "(\<forall>t pre schema post w1 ret fs'.
            IsInstanceWithLeafSubdirs E (entered cfg w0) (Dir cfg)
          \<and> index0 (Targets E (entered cfg w0) cfg) = Inr t
          \<and> Schemas E (entered cfg w0) (Instance t) = pre @ schema # post
          \<and> populate_new_schemas E cfg t (seen_schemas E cfg (entered cfg w0) subdirs Map.empty)
               pre (entered cfg w0) = (0, w1)
          \<and> \<not> map_bool (seen_schemas E cfg (entered cfg w0) subdirs Map.empty) (SchemaName schema)
          \<and> PopulateSchemaDir E w1 schema (Instance t) (Dir cfg) True = (ret, fs')
          \<and> ret \<noteq> 0
          \<longrightarrow> pull (Suc n) E cfg seen w0 =
                Some (Exit ret, seen,
                      (emit (Call_PopulateSchemaDir (SchemaName schema) (Path (Dir cfg))) w1)\<lparr>fs := fs'\<rparr>))
       \<and> (\<forall>m cfg' seen' w' r s wz.
            calls E (Suc n, cfg, seen, w0) (m, cfg', seen', w')
          \<and> pull m E cfg' seen' w' = Some (r, s, wz)
          \<and> r \<noteq> Exit 0
          \<longrightarrow> pull (Suc n) E cfg seen w0 = Some (r, s, wz))"
proof (intro conjI allI impI)
  fix t pre schema post w1 ret fs'
  let ?w = "entered cfg w0"
  let ?m = "seen_schemas E cfg ?w subdirs Map.empty"
  assume a: "IsInstanceWithLeafSubdirs E ?w (Dir cfg)
          \<and> index0 (Targets E ?w cfg) = Inr t
          \<and> Schemas E ?w (Instance t) = pre @ schema # post
          \<and> populate_new_schemas E cfg t ?m pre ?w = (0, w1)
          \<and> \<not> map_bool ?m (SchemaName schema)
          \<and> PopulateSchemaDir E w1 schema (Instance t) (Dir cfg) True = (ret, fs')
          \<and> ret \<noteq> 0"
  let ?w2 = "(emit (Call_PopulateSchemaDir (SchemaName schema) (Path (Dir cfg))) w1)\<lparr>fs := fs'\<rparr>"
  have "populate_new_schemas E cfg t ?m (schema # post) w1 = (ret, ?w2)"
    using a by (simp add: call_PopulateSchemaDir_def)
  then have "populate_new_schemas E cfg t ?m (pre @ schema # post) ?w = (ret, ?w2)"
    using a by (simp add: populate_new_schemas_append del: populate_new_schemas.simps)
  then have "discover E cfg subdirs ?w = (Some (Exit ret), ?w2)"
    using a by (simp add: discover_def Let_def)
  then show "pull (Suc n) E cfg seen w0 = Some (Exit ret, seen, ?w2)"
    by (simp add: pull_at_node [OF node subs] del: pull.simps)
next
  fix m cfg' seen' w' r s wz
  assume a: "calls E (Suc n, cfg, seen, w0) (m, cfg', seen', w')
          \<and> pull m E cfg' seen' w' = Some (r, s, wz) \<and> r \<noteq> Exit 0"
  then show "pull (Suc n) E cfg seen w0 = Some (r, s, wz)"
    using calls_result [of E "Suc n" cfg seen w0 m cfg' seen' w' r s wz] by blast
qed

theorem pull_stops_at_first_failure_witness:
  "\<not> IsLeaf discovery_fails (entered root_cfg world0) (Dir root_cfg)
   \<and> Subdirs discovery_fails (entered root_cfg world0) (Dir root_cfg) = Inr [\<lparr>Path = ''/r/shop''\<rparr>]
   \<and> (\<exists>w'. pull (Suc (Suc 0)) discovery_fails root_cfg Map.empty world0 = Some (Exit 1, Map.empty, w')
        \<and> dirs (fs w') = insert ''/r/archive'' (dirs (fs world0))
        \<and> trace w' = [Visit ''/r'', Call_PopulateSchemaDir ''archive'' ''/r'',
                       Call_PopulateSchemaDir ''stats'' ''/r''])
   \<and> \<not> IsLeaf first_subdir_fails (entered root_cfg world0) (Dir root_cfg)
   \<and> Subdirs first_subdir_fails (entered root_cfg world0) (Dir root_cfg) =
        Inr [\<lparr>Path = ''/r/shop''\<rparr>, \<lparr>Path = ''/r/blog''\<rparr>]
   \<and> calls first_subdir_fails (Suc (Suc 0), root_cfg, Map.empty, world0)
        (Suc 0, shop_cfg, [''/r'' \<mapsto> True], entered root_cfg world0)
   \<and> (\<exists>w'. pull (Suc (Suc 0)) first_subdir_fails root_cfg Map.empty world0 =
             Some (Exit 1, [''/r'' \<mapsto> True], w')
        \<and> Visit ''/r/blog'' \<notin> set (trace w'))"
proof -
  let ?W = "entered root_cfg world0"
  let ?D = discovery_fails
  let ?F = first_subdir_fails
  txt \<open>The discovery stops at the schema \<open>stats\<close>.\<close>
  have node: "\<not> IsLeaf ?D ?W (Dir root_cfg)"
    by (simp add: discovery_fails_def calm_def root_cfg_def)
  have subs: "Subdirs ?D ?W (Dir root_cfg) = Inr [\<lparr>Path = ''/r/shop''\<rparr>]"
    by (simp add: discovery_fails_def calm_def root_cfg_def)
  let ?m = "seen_schemas ?D root_cfg ?W [\<lparr>Path = ''/r/shop''\<rparr>] Map.empty"
  let ?w1 = "(emit (Call_PopulateSchemaDir ''archive'' ''/r'') ?W)
               \<lparr>fs := (fs world0)\<lparr>dirs := insert ''/r/archive'' (dirs (fs world0))\<rparr>\<rparr>"
  have m: "?m = [''shop'' \<mapsto> True]"
    by (simp add: discovery_fails_def calm_def node_defs)
  have inst: "IsInstanceWithLeafSubdirs ?D ?W (Dir root_cfg)"
    by (simp add: discovery_fails_def calm_def root_cfg_def)
  have tg: "index0 (Targets ?D ?W root_cfg) = Inr shop_target"
    by (simp add: discovery_fails_def calm_def index0_def)
  have sch: "Schemas ?D ?W (Instance shop_target) =
      [\<lparr>SchemaName = ''shop''\<rparr>, \<lparr>SchemaName = ''archive''\<rparr>] @ \<lparr>SchemaName = ''stats''\<rparr> # [\<lparr>SchemaName = ''logs''\<rparr>]"
    by (simp add: discovery_fails_def calm_def)
  have pre: "populate_new_schemas ?D root_cfg shop_target ?m
      [\<lparr>SchemaName = ''shop''\<rparr>, \<lparr>SchemaName = ''archive''\<rparr>] ?W = (0, ?w1)"
    unfolding m
    by (simp add: discovery_fails_def calm_def node_defs entered_def emit_def root_cfg_def
        shop_target_def world0_def)
  have unseen: "\<not> map_bool ?m (SchemaName \<lparr>SchemaName = ''stats''\<rparr>)"
    unfolding m by (simp add: map_bool_def)
  have fails: "PopulateSchemaDir ?D ?w1 \<lparr>SchemaName = ''stats''\<rparr> (Instance shop_target) (Dir root_cfg) True =
      (1, fs ?w1) \<and> (1::int) \<noteq> 0"
    by (simp add: discovery_fails_def calm_def)
  from pull_stops_at_first_failure [OF node subs, of "Suc 0" Map.empty]
    inst tg sch pre unseen fails
  have run: "pull (Suc (Suc 0)) ?D root_cfg Map.empty world0 =
      Some (Exit 1, Map.empty,
        (emit (Call_PopulateSchemaDir (SchemaName \<lparr>SchemaName = ''stats''\<rparr>) (Path (Dir root_cfg))) ?w1)
          \<lparr>fs := fs ?w1\<rparr>)"
    by blast
  have part1: "\<exists>w'. pull (Suc (Suc 0)) ?D root_cfg Map.empty world0 = Some (Exit 1, Map.empty, w')
        \<and> dirs (fs w') = insert ''/r/archive'' (dirs (fs world0))
        \<and> trace w' = [Visit ''/r'', Call_PopulateSchemaDir ''archive'' ''/r'',
                       Call_PopulateSchemaDir ''stats'' ''/r'']"
    unfolding run by (simp add: emit_def entered_def root_cfg_def world0_def)
  txt \<open>The first sub-directory fails, the second is not visited.\<close>
  have node': "\<not> IsLeaf ?F ?W (Dir root_cfg)"
    by (simp add: first_subdir_fails_def write_fails_def calm_def root_cfg_def)
  have subs': "Subdirs ?F ?W (Dir root_cfg) = Inr [\<lparr>Path = ''/r/shop''\<rparr>, \<lparr>Path = ''/r/blog''\<rparr>]"
    by (simp add: first_subdir_fails_def write_fails_def calm_def root_cfg_def)
  have cd: "ChangeDir root_cfg \<lparr>Path = ''/r/shop''\<rparr> = shop_cfg"
    by (simp add: ChangeDir_def root_cfg_def shop_cfg_def)
  have c: "calls ?F (Suc (Suc 0), root_cfg, Map.empty, world0) (Suc 0, shop_cfg, [''/r'' \<mapsto> True], ?W)"
  proof -
    have "calls ?F (Suc (Suc 0), root_cfg, Map.empty, world0)
        (Suc 0, ChangeDir root_cfg \<lparr>Path = ''/r/shop''\<rparr>, Map.empty(Path (Dir root_cfg) \<mapsto> True), ?W)"
    proof (rule calls.intros [where pre = "[]" and post = "[\<lparr>Path = ''/r/blog''\<rparr>]"])
      show "\<not> IsLeaf ?F ?W (Dir root_cfg)" by (rule node')
      show "Subdirs ?F ?W (Dir root_cfg) = Inr ([] @ \<lparr>Path = ''/r/shop''\<rparr> # [\<lparr>Path = ''/r/blog''\<rparr>])"
        using subs' by simp
      show "discover ?F root_cfg ([] @ \<lparr>Path = ''/r/shop''\<rparr> # [\<lparr>Path = ''/r/blog''\<rparr>]) ?W = (None, ?W)"
        by (simp add: first_subdir_fails_def write_fails_def tree_defs node_defs index0_def)
      show "pull_subdirs (Suc 0) ?F root_cfg [] (Map.empty(Path (Dir root_cfg) \<mapsto> True)) ?W =
          Some (Exit 0, Map.empty(Path (Dir root_cfg) \<mapsto> True), ?W)"
        by simp
      show "\<not> map_bool (Map.empty(Path (Dir root_cfg) \<mapsto> True)) (Path \<lparr>Path = ''/r/shop''\<rparr>)"
        by (simp add: map_bool_def root_cfg_def)
    qed
    then show ?thesis by (simp add: root_cfg_def cd [unfolded root_cfg_def])
  qed
  have inner: "\<exists>w'. pull (Suc 0) ?F shop_cfg [''/r'' \<mapsto> True] ?W = Some (Exit 1, [''/r'' \<mapsto> True], w')
      \<and> Visit ''/r/blog'' \<notin> set (trace w') \<and> Exit 1 \<noteq> Exit 0"
    by (simp add: first_subdir_fails_def write_fails_def tree_defs step_defs)
  then obtain w' where inner': "pull (Suc 0) ?F shop_cfg [''/r'' \<mapsto> True] ?W = Some (Exit 1, [''/r'' \<mapsto> True], w')"
    and nv: "Visit ''/r/blog'' \<notin> set (trace w')" by blast
  have ne: "Exit 1 \<noteq> Exit 0" by simp
  from pull_stops_at_first_failure [OF node' subs', of "Suc 0" Map.empty] c inner' ne
  have "pull (Suc (Suc 0)) ?F root_cfg Map.empty world0 = Some (Exit 1, [''/r'' \<mapsto> True], w')"
    by blast
  with nv have part2: "\<exists>w'. pull (Suc (Suc 0)) ?F root_cfg Map.empty world0 =
             Some (Exit 1, [''/r'' \<mapsto> True], w') \<and> Visit ''/r/blog'' \<notin> set (trace w')"
    by blast
  from node subs part1 node' subs' c part2 show ?thesis by blast
qed

subsection \<open>A database error while generating a definition\<close>

text \<open>
  When pull reaches a Create or Alter entry and the definition text of its table
  cannot be generated, pull panics with the database error as the value of the panic.
  It prints nothing after the call of \<^verbatim>\<open>ShowCreateTable\<close> and returns no code: the
  call on the leaf and every call of pull that encloses it, at any depth, end in that
  panic, in the world the failed call left.
\<close>

lemma pull_definition_error_panics:
  assumes leaf: "IsLeaf E (entered cfg w0) (Dir cfg)"
    and lb: "leaf_begin E cfg (entered cfg w0) = (Inr (t, to, pre @ td # post), w)"
    and kind: "td = CreateTable tb \<or> td = AlterTable tb"
    and pre: "apply_diffs E cfg t to pre w = (None, w1)"
    and err: "ShowCreateTable E w1 (Instance t) to tb = Inl e"
    and outer: "(calls E)\<^sup>*\<^sup>* (m, cfg0, seen0, w00) (Suc n, cfg, seen, w0)"
  shows "pull m E cfg0 seen0 w00 = Some (Panic e, seen, emit (Call_ShowCreateTable (Name tb)) w1)"
proof -
  have step: "apply_diff E cfg t to td w1 = (Some (Panic e), emit (Call_ShowCreateTable (Name tb)) w1)"
    using kind err by auto
  have "apply_diffs E cfg t to (pre @ td # post) w =
      (Some (Panic e), emit (Call_ShowCreateTable (Name tb)) w1)"
    by (simp add: apply_diffs_append pre step del: apply_diff.simps)
  then have "pull (Suc n) E cfg seen w0 = Some (Panic e, seen, emit (Call_ShowCreateTable (Name tb)) w1)"
    unfolding pull_leaf_loop [OF leaf lb] by simp
  with calls_rtrancl_result [OF outer, of "Panic e" seen "emit (Call_ShowCreateTable (Name tb)) w1"]
  show ?thesis by simp
qed

text \<open>
  The other database error of the leaf branch is handled differently: when the
  temporary schema cannot be populated, pull prints the error and returns 1.
\<close>

lemma pull_reports_failed_population:
  assumes leaf: "IsLeaf E (entered cfg w0) (Dir cfg)"
    and target: "index0 (Targets E (started cfg w0) cfg) = Inr t"
    and name: "index0 (SchemaNames t) = Inr name"
    and live: "Instance_Schema E (started cfg w0) (Instance t) name = Some to"
    and fault: "PopulateTemporarySchema_fault E (started cfg w0) cfg = Some e"
  shows "pull (Suc n) E cfg seen w0 =
     Some (Exit 1, seen,
       emit (Printed (UnableToPopulateTemporarySchema e))
         (emit (Call_PopulateTemporarySchema (Path (Dir cfg))) (started cfg w0)))"
proof -
  have "leaf_begin E cfg (entered cfg w0) =
      (Inl (Exit 1), emit (Printed (UnableToPopulateTemporarySchema e))
         (emit (Call_PopulateTemporarySchema (Path (Dir cfg))) (started cfg w0)))"
    using target name live fault
    by (simp add: leaf_begin_def PopulateTemporarySchema_def Let_def started_def)
  then show ?thesis
    unfolding pull_at_leaf [OF leaf] by (simp add: pull_leaf_def)
qed

text \<open>
  C8. The claim is that a database error met while the definition text of a table is
  generated is reported with its cause and that pull returns a code other than 0, handed
  up through every enclosing call.  pull run on the root of \<open>show_fails\<close>, whose leaf
  \<^verbatim>\<open>/r/shop\<close> has the diff Drop \<open>legacy\<close>, Alter \<open>orders\<close>: the file of \<open>legacy\<close> is
  deleted, \<^verbatim>\<open>ShowCreateTable\<close> fails for \<open>orders\<close>, and pull panics.  The trace ends
  with the failed call: no message about the error is printed, neither call of pull
  returns a code, and the temporary schema is left behind.  The other database error
  of the leaf branch, a failed \<^verbatim>\<open>PopulateTemporarySchema\<close>, is printed with its cause
  and answered with \<^verbatim>\<open>return 1\<close>.
\<close>
theorem pull_panics_when_definition_fails:
  "map_option (\<lambda>(r, seen, w). (r, temp_schema w, trace w))
     (pull (Suc (Suc 0)) show_fails root_cfg Map.empty world0) =
   Some (Panic ''Error 1146: table does not exist'', True,
     [Visit ''/r'', Visit ''/r/shop'', Printed (Updating ''/r/shop''),
      Call_PopulateTemporarySchema ''/r/shop'', Call_NewSchemaDiff,
      Call_SQLFile_Delete ''/r/shop/legacy.sql'', Printed (DeletedTable ''/r/shop/legacy.sql''),
      Call_ShowCreateTable ''orders''])"
  by (simp add: show_fails_def tree_defs step_defs node_defs)

subsection \<open>Running pull again\<close>




subsection \<open>The first target and the first schema name\<close>

lemma SQLFile_Write_Targets: "SQLFile_Write (E\<lparr>Targets := f\<rparr>) sf w = SQLFile_Write E sf w"
  by (simp add: SQLFile_Write_def)

lemma SQLFile_Delete_Targets: "SQLFile_Delete (E\<lparr>Targets := f\<rparr>) sf w = SQLFile_Delete E sf w"
  by (simp add: SQLFile_Delete_def cong: if_cong)

lemma Dir_Delete_Targets: "Dir_Delete (E\<lparr>Targets := f\<rparr>) d w = Dir_Delete E d w"
  by (simp add: Dir_Delete_def)

lemma PopulateTemporarySchema_Targets:
  "PopulateTemporarySchema (E\<lparr>Targets := f\<rparr>) cfg w = PopulateTemporarySchema E cfg w"
  by (simp add: PopulateTemporarySchema_def)

lemma apply_diff_Targets:
  "Instance t' = Instance t \<Longrightarrow>
   apply_diff (E\<lparr>Targets := f\<rparr>) cfg t' to td w = apply_diff E cfg t to td w"
  by (cases td)
    (auto simp: SQLFile_Write_Targets SQLFile_Delete_Targets Let_def
      split: sum.splits prod.splits option.splits)

lemma apply_diffs_Targets:
  "Instance t' = Instance t \<Longrightarrow>
   apply_diffs (E\<lparr>Targets := f\<rparr>) cfg t' to diff w = apply_diffs E cfg t to diff w"
  by (induction diff arbitrary: w)
    (simp_all add: apply_diff_Targets del: apply_diff.simps split: prod.splits option.splits)

lemma leaf_end_Targets: "leaf_end (E\<lparr>Targets := f\<rparr>) cfg w = leaf_end E cfg w"
  by (simp add: leaf_end_def DropTemporarySchema_def)

lemma pull_leaf_first_target:
  assumes tg: "Targets E (emit (Printed (Updating (Path (Dir cfg)))) w) cfg = t # ts"
    and nm: "SchemaNames t = name # names"
  shows "pull_leaf (E\<lparr>Targets := (\<lambda>w c. [t\<lparr>SchemaNames := [name]\<rparr>])\<rparr>) cfg w = pull_leaf E cfg w"
proof -
  let ?E' = "E\<lparr>Targets := (\<lambda>w c. [t\<lparr>SchemaNames := [name]\<rparr>])\<rparr>"
  let ?t' = "t\<lparr>SchemaNames := [name]\<rparr>"
  let ?w = "emit (Printed (Updating (Path (Dir cfg)))) w"
  have i: "Instance ?t' = Instance t" by simp
  show ?thesis
  proof (cases "Instance_Schema E ?w (Instance t) name")
    case None
    then have "leaf_begin ?E' cfg w = leaf_begin E cfg w"
      using tg nm by (simp add: leaf_begin_def index0_def Let_def Dir_Delete_Targets)
    moreover have "\<exists>r w'. leaf_begin E cfg w = (Inl r, w')"
      using tg nm None
      by (auto simp: leaf_begin_def index0_def Let_def split: prod.splits option.splits)
    ultimately show ?thesis
      by (auto simp: pull_leaf_def)
  next
    case (Some to)
    show ?thesis
    proof (cases "PopulateTemporarySchema E cfg ?w")
      case (Pair r w1)
      show ?thesis
      proof (cases r)
        case None
        with Pair Some tg nm have "leaf_begin E cfg w =
            (Inr (t, to, NewSchemaDiff E (TemporarySchema E w1 (Instance t)) (Some to)),
             emit Call_NewSchemaDiff w1)"
          by (simp add: leaf_begin_def index0_def Let_def)
        moreover from None Pair Some tg nm have "leaf_begin ?E' cfg w =
            (Inr (?t', to, NewSchemaDiff E (TemporarySchema E w1 (Instance t)) (Some to)),
             emit Call_NewSchemaDiff w1)"
          by (simp add: leaf_begin_def index0_def Let_def PopulateTemporarySchema_Targets)
        ultimately show ?thesis
          by (simp add: pull_leaf_def apply_diffs_Targets [OF i] leaf_end_Targets
              cong: prod.case_cong option.case_cong)
      next
        case (Some e)
        with Pair \<open>Instance_Schema E ?w (Instance t) name = Some to\<close> tg nm
        have "leaf_begin E cfg w = (Inl (Exit 1), emit (Printed (UnableToPopulateTemporarySchema e)) w1)"
          by (simp add: leaf_begin_def index0_def Let_def)
        moreover from Some Pair \<open>Instance_Schema E ?w (Instance t) name = Some to\<close> tg nm
        have "leaf_begin ?E' cfg w = (Inl (Exit 1), emit (Printed (UnableToPopulateTemporarySchema e)) w1)"
          by (simp add: leaf_begin_def index0_def Let_def PopulateTemporarySchema_Targets)
        ultimately show ?thesis
          by (simp add: pull_leaf_def)
      qed
    qed
  qed
qed

text \<open>
  C10. At a leaf directory pull reads only the first target and only the first schema
  name of that target: with the list of targets cut down to the first target, and its
  schema names to the first name, pull gives the same result and leaves the same world
  (so nothing is printed about the others).  With no target, or with a first target
  that has no schema name, pull ends in the panic of the runtime for an index out of
  range, having printed only its first message; it returns no error code.
\<close>
theorem pull_uses_first_target_and_schema_name:
  assumes leaf: "IsLeaf E (entered cfg w0) (Dir cfg)"
  shows "(\<forall>t ts name names.
            Targets E (started cfg w0) cfg = t # ts \<and> SchemaNames t = name # names \<longrightarrow>
            pull (Suc n) E cfg seen w0 =
            pull (Suc n) (E\<lparr>Targets := (\<lambda>w c. [t\<lparr>SchemaNames := [name]\<rparr>])\<rparr>) cfg seen w0)
       \<and> (Targets E (started cfg w0) cfg = [] \<longrightarrow>
            pull (Suc n) E cfg seen w0 = Some (Panic index_out_of_range, seen, started cfg w0))
       \<and> (\<forall>t ts. Targets E (started cfg w0) cfg = t # ts \<and> SchemaNames t = [] \<longrightarrow>
            pull (Suc n) E cfg seen w0 = Some (Panic index_out_of_range, seen, started cfg w0))"
proof (intro conjI allI impI)
  fix t ts name names
  assume a: "Targets E (started cfg w0) cfg = t # ts \<and> SchemaNames t = name # names"
  let ?E' = "E\<lparr>Targets := (\<lambda>w c. [t\<lparr>SchemaNames := [name]\<rparr>])\<rparr>"
  have leaf': "IsLeaf ?E' (entered cfg w0) (Dir cfg)"
    using leaf by simp
  from a have tg: "Targets E (emit (Printed (Updating (Path (Dir cfg)))) (entered cfg w0)) cfg = t # ts"
    and nm: "SchemaNames t = name # names"
    by (simp_all add: started_def)
  show "pull (Suc n) E cfg seen w0 = pull (Suc n) ?E' cfg seen w0"
    unfolding pull_at_leaf [OF leaf] pull_at_leaf [OF leaf']
    by (simp only: pull_leaf_first_target [OF tg nm])
next
  assume "Targets E (started cfg w0) cfg = []"
  then show "pull (Suc n) E cfg seen w0 = Some (Panic index_out_of_range, seen, started cfg w0)"
    unfolding pull_at_leaf [OF leaf]
    by (simp add: pull_leaf_def leaf_begin_def index0_def Let_def started_def)
next
  fix t ts
  assume "Targets E (started cfg w0) cfg = t # ts \<and> SchemaNames t = []"
  then show "pull (Suc n) E cfg seen w0 = Some (Panic index_out_of_range, seen, started cfg w0)"
    unfolding pull_at_leaf [OF leaf]
    by (simp add: pull_leaf_def leaf_begin_def index0_def Let_def started_def)
qed

theorem pull_uses_first_target_and_schema_name_witness:
  "IsLeaf two_targets (entered shop_cfg world0) (Dir shop_cfg)
   \<and> pull (Suc 0) two_targets shop_cfg Map.empty world0 = pull (Suc 0) calm shop_cfg Map.empty world0
   \<and> IsLeaf no_targets (entered shop_cfg world0) (Dir shop_cfg)
   \<and> pull (Suc 0) no_targets shop_cfg Map.empty world0 =
        Some (Panic ''runtime error: index out of range'', Map.empty,
              world0\<lparr>trace := [Visit ''/r/shop'', Printed (Updating ''/r/shop'')]\<rparr>)"
proof -
  have leaf: "IsLeaf two_targets (entered shop_cfg world0) (Dir shop_cfg)"
    by (simp add: two_targets_def calm_def shop_cfg_def)
  have tg: "Targets two_targets (started shop_cfg world0) shop_cfg =
      \<lparr>Instance = ''db1'', SchemaNames = [''shop'', ''archive'']\<rparr> # [\<lparr>Instance = ''db2'', SchemaNames = [''shop'']\<rparr>]
      \<and> SchemaNames \<lparr>Instance = ''db1'', SchemaNames = [''shop'', ''archive'']\<rparr> = ''shop'' # [''archive'']"
    by (simp add: two_targets_def calm_def)
  have same: "two_targets\<lparr>Targets := (\<lambda>w c. [\<lparr>Instance = ''db1'', SchemaNames = [''shop'', ''archive'']\<rparr>\<lparr>SchemaNames := [''shop'']\<rparr>])\<rparr> = calm"
    by (simp add: two_targets_def calm_def shop_target_def)
  have leaf0: "IsLeaf no_targets (entered shop_cfg world0) (Dir shop_cfg)"
    by (simp add: no_targets_def calm_def shop_cfg_def)
  have none: "Targets no_targets (started shop_cfg world0) shop_cfg = []"
    by (simp add: no_targets_def calm_def)
  from pull_uses_first_target_and_schema_name [OF leaf, of 0 Map.empty] tg same
  have "pull (Suc 0) two_targets shop_cfg Map.empty world0 = pull (Suc 0) calm shop_cfg Map.empty world0"
    by metis
  moreover from pull_uses_first_target_and_schema_name [OF leaf0, of 0 Map.empty] none
  have "pull (Suc 0) no_targets shop_cfg Map.empty world0 =
        Some (Panic index_out_of_range, Map.empty, started shop_cfg world0)"
    by blast
  then have "pull (Suc 0) no_targets shop_cfg Map.empty world0 =
        Some (Panic ''runtime error: index out of range'', Map.empty,
              world0\<lparr>trace := [Visit ''/r/shop'', Printed (Updating ''/r/shop'')]\<rparr>)"
    by (simp add: index_out_of_range_def started_def entered_def emit_def shop_cfg_def world0_def)
  ultimately show ?thesis
    using leaf leaf0 by blast
qed

end
